theory Spec2Isabelle
  imports Main "HOL-Library.Word"
begin

unbundle bit_operations_syntax

section \<open>Bytes, text and errors\<close>

text \<open>
  A shallow embedding of \<^verbatim>\<open>yaffs_unpack.py\<close>. Python \<^verbatim>\<open>bytes\<close> are lists of
  8-bit words, Python integers are \<open>int\<close>, and a Python \<^verbatim>\<open>str\<close> is the list of
  its code points. Every exception the program can raise is a constructor of \<open>error\<close>;
  a function that can raise returns \<open>error + 'a\<close> with \<open>Inl\<close> for the exception.
\<close>

type_synonym byte = "8 word"

type_synonym pystr = "nat list"

datatype yaffs_obj_type =
    YAFFS_OBJECT_TYPE_UNKNOWN
  | YAFFS_OBJECT_TYPE_FILE
  | YAFFS_OBJECT_TYPE_SYMLINK
  | YAFFS_OBJECT_TYPE_DIRECTORY
  | YAFFS_OBJECT_TYPE_HARDLINK
  | YAFFS_OBJECT_TYPE_SPECIAL

datatype error =
    StructError
  | ValueError int
  | UnicodeDecodeError
  | IndexError
  | ZeroDivisionError
  | CorruptedType
  | WrongPageSize
  | WrongYaffsObjType yaffs_obj_type
  | FileExistsError
  | FileNotFoundError
  | NotADirectoryError
  | IsADirectoryError
  | Unmodelled

subsection \<open>Strict UTF-8 decoding, as \<^verbatim>\<open>bytes.decode('utf8')\<close>\<close>

definition is_cont :: "byte \<Rightarrow> bool" where
  "is_cont b = (0x80 \<le> b \<and> b \<le> 0xBF)"

definition cont_bits :: "byte \<Rightarrow> nat" where
  "cont_bits b = unat b mod 64"

text \<open>The range allowed for the second byte of a sequence depends on the lead byte:
  it excludes overlong forms, the surrogates and code points above 0x10FFFF.\<close>

definition second_ok :: "byte \<Rightarrow> byte \<Rightarrow> bool" where
  "second_ok b c =
     (if b = 0xE0 then 0xA0 \<le> c \<and> c \<le> 0xBF
      else if b = 0xED then 0x80 \<le> c \<and> c \<le> 0x9F
      else if b = 0xF0 then 0x90 \<le> c \<and> c \<le> 0xBF
      else if b = 0xF4 then 0x80 \<le> c \<and> c \<le> 0x8F
      else is_cont c)"

fun utf8_decode :: "byte list \<Rightarrow> error + pystr" where
  "utf8_decode [] = Inr []"
| "utf8_decode (b # bs) =
     (if b < 0x80 then
        (case utf8_decode bs of Inl e \<Rightarrow> Inl e | Inr s \<Rightarrow> Inr (unat b # s))
      else if 0xC2 \<le> b \<and> b \<le> 0xDF then
        (case bs of
           c1 # r \<Rightarrow>
             if is_cont c1 then
               (case utf8_decode r of Inl e \<Rightarrow> Inl e
                | Inr s \<Rightarrow> Inr (((unat b mod 32) * 64 + cont_bits c1) # s))
             else Inl UnicodeDecodeError
         | _ \<Rightarrow> Inl UnicodeDecodeError)
      else if 0xE0 \<le> b \<and> b \<le> 0xEF then
        (case bs of
           c1 # c2 # r \<Rightarrow>
             if second_ok b c1 \<and> is_cont c2 then
               (case utf8_decode r of Inl e \<Rightarrow> Inl e
                | Inr s \<Rightarrow>
                    Inr ((((unat b mod 16) * 64 + cont_bits c1) * 64 + cont_bits c2) # s))
             else Inl UnicodeDecodeError
         | _ \<Rightarrow> Inl UnicodeDecodeError)
      else if 0xF0 \<le> b \<and> b \<le> 0xF4 then
        (case bs of
           c1 # c2 # c3 # r \<Rightarrow>
             if second_ok b c1 \<and> is_cont c2 \<and> is_cont c3 then
               (case utf8_decode r of Inl e \<Rightarrow> Inl e
                | Inr s \<Rightarrow>
                    Inr (((((unat b mod 8) * 64 + cont_bits c1) * 64 + cont_bits c2) * 64
                          + cont_bits c3) # s))
             else Inl UnicodeDecodeError
         | _ \<Rightarrow> Inl UnicodeDecodeError)
      else Inl UnicodeDecodeError)"

subsection \<open>\<^verbatim>\<open>split\<close> with a separator of length one\<close>

text \<open>The same function serves \<^verbatim>\<open>bytes.split\<close> and the splitting of a path
  string at the path separator.\<close>

fun py_split :: "'a \<Rightarrow> 'a list \<Rightarrow> 'a list list" where
  "py_split sep [] = [[]]"
| "py_split sep (b # bs) =
     (if b = sep then [] # py_split sep bs
      else (case py_split sep bs of
              [] \<Rightarrow> [[b]]
            | c # cs \<Rightarrow> (b # c) # cs))"

subsection \<open>The sentinel string rule\<close>

text \<open>
  \<^verbatim>\<open>
  def c_null_term_str_to_str(data:bytes) -> str:
      if all(_ == 0xFF for _ in data):
          return ""
      return data.split(b'\x00')[0].decode('utf8')
  \<close>
\<close>

definition c_null_term_str_to_str :: "byte list \<Rightarrow> error + pystr" where
  "c_null_term_str_to_str data =
     (if list_all (\<lambda>b. b = 0xFF) data then Inr []
      else (case py_split 0 data of
              [] \<Rightarrow> Inl IndexError
            | c # _ \<Rightarrow> utf8_decode c))"

section \<open>Header structures\<close>

subsection \<open>Fixed-width integers of a buffer\<close>

datatype endianness = LITTLE_ENDIAN | BIG_ENDIAN

fun le_uint :: "byte list \<Rightarrow> int" where
  "le_uint [] = 0"
| "le_uint (b # bs) = uint b + 256 * le_uint bs"

definition bytes_uint :: "endianness \<Rightarrow> byte list \<Rightarrow> int" where
  "bytes_uint e bs = (case e of LITTLE_ENDIAN \<Rightarrow> le_uint bs | BIG_ENDIAN \<Rightarrow> le_uint (rev bs))"

definition field_uint :: "endianness \<Rightarrow> byte list \<Rightarrow> nat \<Rightarrow> nat \<Rightarrow> int" where
  "field_uint e buf off n = bytes_uint e (take n (drop off buf))"

text \<open>
  The structures are declared with the \<^verbatim>\<open>cstruct\<close> library, which unpacks the
  fields in their declared order with \<^verbatim>\<open>struct.unpack_from\<close>: a field that ends
  beyond the end of the buffer raises \<^verbatim>\<open>struct.error\<close>. With an explicit byte order
  the fields are packed without padding.
\<close>

definition unpack_from :: "endianness \<Rightarrow> byte list \<Rightarrow> nat \<Rightarrow> nat \<Rightarrow> error + int" where
  "unpack_from e buf off n =
     (if length buf < off + n then Inl StructError else Inr (field_uint e buf off n))"

text \<open>
  A signed field is read in two's complement. The enum field of four bytes is read as a
  signed 32-bit integer, the format of an enumeration of that size, and converted with
  the enumeration's constructor, which raises \<^verbatim>\<open>ValueError\<close> with the value read
  when that is none of its members: the four bytes 0xFF give the value \<open>-1\<close>.
\<close>

definition field_sint :: "endianness \<Rightarrow> byte list \<Rightarrow> nat \<Rightarrow> nat \<Rightarrow> int" where
  "field_sint e buf off n =
     (let v = field_uint e buf off n
      in if 2 ^ (8 * n - 1) \<le> v then v - 2 ^ (8 * n) else v)"

definition unpack_from_signed :: "endianness \<Rightarrow> byte list \<Rightarrow> nat \<Rightarrow> nat \<Rightarrow> error + int" where
  "unpack_from_signed e buf off n =
     (if length buf < off + n then Inl StructError else Inr (field_sint e buf off n))"

definition yaffs_obj_type_of :: "int \<Rightarrow> error + yaffs_obj_type" where
  "yaffs_obj_type_of v =
     (if v = 0 then Inr YAFFS_OBJECT_TYPE_UNKNOWN
      else if v = 1 then Inr YAFFS_OBJECT_TYPE_FILE
      else if v = 2 then Inr YAFFS_OBJECT_TYPE_SYMLINK
      else if v = 3 then Inr YAFFS_OBJECT_TYPE_DIRECTORY
      else if v = 4 then Inr YAFFS_OBJECT_TYPE_HARDLINK
      else if v = 5 then Inr YAFFS_OBJECT_TYPE_SPECIAL
      else Inl (ValueError v))"

subsection \<open>\<^verbatim>\<open>yaffs_obj_hdr\<close>\<close>

text \<open>
  The fields of the structure that \<^verbatim>\<open>get_ObjHdr\<close> reads, with the byte offsets
  that the declaration gives them:
  type 0, parent_obj_id 4, always_0xFFFF 8, name 10 (255 bytes), always_0xFF 265,
  always_0xFFFF_2 266, yst_mode 268, yst_uid 272, yst_gid 276, yst_atime 280,
  yst_mtime 284, yst_ctime 288, file_size_low 292, equiv_id 296, alias 300 (160 bytes),
  yst_rdev 460, win_ctime 464, win_atime 472, win_mtime 480, inband_shadowed_obj_id 488,
  inband_is_shrink 492, file_size_high 496, reserved 500, shadows_obj 504,
  is_shrink 508. The structure is 512 bytes long.
\<close>

record yaffs_obj_hdr =
  hdr_type :: yaffs_obj_type
  hdr_parent_obj_id :: int
  hdr_name :: "byte list"
  yst_mode :: int
  yst_uid :: int
  yst_gid :: int
  yst_atime :: int
  yst_mtime :: int
  yst_ctime :: int
  file_size_low :: int
  hdr_alias :: "byte list"
  file_size_high :: int

definition yaffs_obj_hdr_size :: nat where
  "yaffs_obj_hdr_size = 512"

text \<open>
  \<^verbatim>\<open>cstruct.CStruct.unpack(self, data)\<close>. The type is the first field: it needs
  four bytes, read signed, and a value that is a member of the enumeration. Every later field raises
  \<^verbatim>\<open>struct.error\<close> when the buffer ends before it does, and the last field ends
  at byte 512.
\<close>

definition yaffs_obj_hdr_unpack :: "endianness \<Rightarrow> byte list \<Rightarrow> error + yaffs_obj_hdr" where
  "yaffs_obj_hdr_unpack e buf =
     (case unpack_from_signed e buf 0 4 of
        Inl x \<Rightarrow> Inl x
      | Inr t \<Rightarrow>
          (case yaffs_obj_type_of t of
             Inl x \<Rightarrow> Inl x
           | Inr ty \<Rightarrow>
               if length buf < yaffs_obj_hdr_size then Inl StructError
               else Inr \<lparr> hdr_type = ty,
                          hdr_parent_obj_id = field_uint e buf 4 4,
                          hdr_name = take 255 (drop 10 buf),
                          yst_mode = field_uint e buf 268 4,
                          yst_uid = field_uint e buf 272 4,
                          yst_gid = field_uint e buf 276 4,
                          yst_atime = field_uint e buf 280 4,
                          yst_mtime = field_uint e buf 284 4,
                          yst_ctime = field_uint e buf 288 4,
                          file_size_low = field_uint e buf 292 4,
                          hdr_alias = take 160 (drop 300 buf),
                          file_size_high = field_uint e buf 496 4 \<rparr>))"

text \<open>The record \<^verbatim>\<open>ObjHdr\<close>; its field \<^verbatim>\<open>alias\<close> is written \<open>alias'\<close> here.\<close>

record ObjHdr =
  type :: yaffs_obj_type
  parent_obj_id :: int
  name :: pystr
  file_mode :: int
  uid :: int
  gid :: int
  atime :: int
  mtime :: int
  ctime :: int
  file_size :: int
  alias' :: pystr

definition get_ObjHdr :: "endianness \<Rightarrow> byte list \<Rightarrow> error + ObjHdr" where
  "get_ObjHdr e data =
     (case yaffs_obj_hdr_unpack e data of
        Inl x \<Rightarrow> Inl x
      | Inr self \<Rightarrow>
          (case c_null_term_str_to_str (hdr_name self) of
             Inl x \<Rightarrow> Inl x
           | Inr nm \<Rightarrow>
               (case c_null_term_str_to_str (hdr_alias self) of
                  Inl x \<Rightarrow> Inl x
                | Inr al \<Rightarrow>
                    Inr \<lparr> type = hdr_type self,
                          parent_obj_id = hdr_parent_obj_id self,
                          name = nm,
                          file_mode = yst_mode self,
                          uid = yst_uid self,
                          gid = yst_gid self,
                          atime = yst_atime self,
                          mtime = yst_mtime self,
                          ctime = yst_ctime self,
                          file_size =
                            (if hdr_type self = YAFFS_OBJECT_TYPE_FILE then
                               (if file_size_high self \<noteq> 0xFFFFFFFF
                                then file_size_low self OR push_bit 32 (file_size_high self)
                                else file_size_low self)
                             else - 1),
                          alias' = al \<rparr>)))"

subsection \<open>\<^verbatim>\<open>yaffs_magic_header\<close> and the byte order\<close>

record yaffs_magic_header =
  magic_type :: int
  magic_parent_obj_id :: int
  always_0xFFFF :: int

definition yaffs_magic_header_size :: nat where
  "yaffs_magic_header_size = 10"

definition yaffs_magic_header_unpack :: "endianness \<Rightarrow> byte list \<Rightarrow> error + yaffs_magic_header" where
  "yaffs_magic_header_unpack e buf =
     (case unpack_from e buf 0 4 of
        Inl x \<Rightarrow> Inl x
      | Inr t \<Rightarrow>
          (case unpack_from e buf 4 4 of
             Inl x \<Rightarrow> Inl x
           | Inr p \<Rightarrow>
               (case unpack_from e buf 8 2 of
                  Inl x \<Rightarrow> Inl x
                | Inr f \<Rightarrow>
                    Inr \<lparr> magic_type = t, magic_parent_obj_id = p, always_0xFFFF = f \<rparr>)))"

definition detect_endianness :: "yaffs_magic_header \<Rightarrow> error + endianness" where
  "detect_endianness ymh =
     (if magic_type ymh \<in> set [0x1, 0x2, 0x3, 0x4, 0x5] then Inr LITTLE_ENDIAN
      else if magic_type ymh \<in> set [push_bit 24 0x1, push_bit 24 0x2, push_bit 24 0x3,
                                      push_bit 24 0x4, push_bit 24 0x4, push_bit 24 0x5]
      then Inr BIG_ENDIAN
      else Inl CorruptedType)"

section \<open>The unpacker\<close>

record YAFFS_unpacker =
  objdict :: "int \<rightharpoonup> ObjHdr"
  yaffs_version :: int
  endianness :: endianness
  page_size :: nat
  spare_size :: nat

definition init_unpacker :: YAFFS_unpacker where
  "init_unpacker =
     \<lparr> objdict = Map.empty, yaffs_version = 1, endianness = LITTLE_ENDIAN,
       page_size = 512, spare_size = 512 div 32 \<rparr>"

subsection \<open>The input stream\<close>

text \<open>
  The stream is its content and a cursor. \<^verbatim>\<open>fin.read(n)\<close> returns the bytes from
  the cursor on, at most \<open>n\<close> of them (all of them when \<open>n\<close> is negative), and moves
  the cursor past them. A seek may place the cursor beyond the end. The page size and
  the spare size of a run are never negative, so the unpacker holds them as naturals.
\<close>

definition fin_read :: "byte list \<Rightarrow> nat \<Rightarrow> int \<Rightarrow> byte list \<times> nat" where
  "fin_read content pos n =
     (let data = (if n < 0 then drop pos content else take (nat n) (drop pos content))
      in (data, pos + length data))"

definition fin_seek_cur :: "nat \<Rightarrow> nat \<Rightarrow> nat" where
  "fin_seek_cur pos off = pos + off"

subsection \<open>Path resolution\<close>

text \<open>
  \<^verbatim>\<open>
  def _unwind_parent_name(self, obj_id:int) -> Iterator[str]:
      while obj_id in self.objdict:
          yield self.objdict[obj_id].name
          obj_id = self.objdict[obj_id].parent_obj_id
  \<close>
  The caller collects the generator into a list. The loop has no bound, so the function
  is partial: \<open>None\<close> stands for a walk that never ends.
\<close>

partial_function (option) unwind_parent_name :: "(int \<rightharpoonup> ObjHdr) \<Rightarrow> int \<Rightarrow> pystr list option" where
  "unwind_parent_name od obj_id =
     (case od obj_id of
        None \<Rightarrow> Some []
      | Some h \<Rightarrow>
          Option.bind (unwind_parent_name od (parent_obj_id h)) (\<lambda>r. Some (name h # r)))"

subsection \<open>Geometry detection\<close>

text \<open>
  \<^verbatim>\<open>
  def _test_page_size(self, fin:BinaryIO, page_size:int):
      fin.seek(0, io.SEEK_SET)
      data = fin.read(page_size)
      if not all(_==0xFF for _ in data[yaffs_obj_hdr.size:]):
          return False
      return True
  \<close>
\<close>

definition test_page_size :: "byte list \<Rightarrow> int \<Rightarrow> bool" where
  "test_page_size content psz =
     (let data = fst (fin_read content 0 psz)
      in if \<not> list_all (\<lambda>b. b = 0xFF) (drop yaffs_obj_hdr_size data) then False else True)"

text \<open>The loop over the allowed page sizes; \<open>- 1\<close> is the value the page size has
  before the loop and keeps when no candidate passes.\<close>

fun select_page_size :: "byte list \<Rightarrow> int list \<Rightarrow> int" where
  "select_page_size content [] = - 1"
| "select_page_size content (psz # rest) =
     (if test_page_size content psz then psz else select_page_size content rest)"

definition allowed_page_size :: "int list" where
  "allowed_page_size = [16384, 8192, 4096, 2048, 512]"

text \<open>
  \<^verbatim>\<open>_detect_param\<close> unpacks the magic header from the first ten bytes, little-endian,
  and detects the byte order, with which the structures are parsed from then on. It
  decodes the first header: when its name and alias are both empty the image is of
  version 1, otherwise of version 2 and the page size is probed. An exception of any of
  these steps leaves the function.
\<close>

definition detect_param :: "YAFFS_unpacker \<Rightarrow> byte list \<Rightarrow> error + YAFFS_unpacker" where
  "detect_param self content =
     (case yaffs_magic_header_unpack LITTLE_ENDIAN
             (fst (fin_read content 0 (int yaffs_magic_header_size))) of
        Inl x \<Rightarrow> Inl x
      | Inr ymh \<Rightarrow>
          (case detect_endianness ymh of
             Inl x \<Rightarrow> Inl x
           | Inr en \<Rightarrow>
               (case get_ObjHdr en (fst (fin_read content 0 (int yaffs_obj_hdr_size))) of
                  Inl x \<Rightarrow> Inl x
                | Inr obj_hdr \<Rightarrow>
                    if name obj_hdr = [] \<and> alias' obj_hdr = [] then
                      Inr (self \<lparr> endianness := en, yaffs_version := 1,
                                  page_size := 512, spare_size := 512 div 32 \<rparr>)
                    else
                      (let psz = select_page_size content allowed_page_size
                       in if psz = - 1 then Inl WrongPageSize
                          else Inr (self \<lparr> endianness := en, yaffs_version := 2,
                                            page_size := nat psz,
                                            spare_size := nat psz div 32 \<rparr>)))))"

subsection \<open>The format sniff\<close>

text \<open>
  The two patterns of \<^verbatim>\<open>detect_yaffs\<close> are sequences of byte classes with a
  repetition count; \<^verbatim>\<open>re.match\<close> matches them at the start of the data.
  \<^verbatim>\<open>
  yaffs_le = br'[\x01-\x05]\x00{3}\x01\x00{3}\xFF{2}'
  yaffs_be = br'\x00{3}[\x01-\x05]\x00{3}\x01\xFF{2}'
  \<close>
\<close>

datatype re_item = ByteRange byte byte nat

fun re_match :: "re_item list \<Rightarrow> byte list \<Rightarrow> bool" where
  "re_match [] data = True"
| "re_match (ByteRange lo hi 0 # items) data = re_match items data"
| "re_match (ByteRange lo hi (Suc n) # items) data =
     (case data of
        [] \<Rightarrow> False
      | b # bs \<Rightarrow> lo \<le> b \<and> b \<le> hi \<and> re_match (ByteRange lo hi n # items) bs)"

definition yaffs_le :: "re_item list" where
  "yaffs_le = [ByteRange 0x01 0x05 1, ByteRange 0x00 0x00 3, ByteRange 0x01 0x01 1,
               ByteRange 0x00 0x00 3, ByteRange 0xFF 0xFF 2]"

definition yaffs_be :: "re_item list" where
  "yaffs_be = [ByteRange 0x00 0x00 3, ByteRange 0x01 0x05 1, ByteRange 0x00 0x00 3,
               ByteRange 0x01 0x01 1, ByteRange 0xFF 0xFF 2]"

definition detect_yaffs :: "byte list \<Rightarrow> bool" where
  "detect_yaffs content =
     (let data = fst (fin_read content 0 (4 + 4 + 2))
      in if re_match yaffs_le data then True
         else if re_match yaffs_be data then True
         else False)"

subsection \<open>The destination tree\<close>

text \<open>
  The object's path is the destination directory and the names from the root down,
  joined with the separator and parsed by \<^verbatim>\<open>pathlib\<close>, which splits at every
  separator (code point 47) and drops the empty components and the components
  \<^verbatim>\<open>.\<close> (code point 46). A path is modelled by its components below the destination
  directory, the empty list being the destination directory itself.
\<close>

definition obj_path_of :: "pystr list \<Rightarrow> pystr list" where
  "obj_path_of names =
     filter (\<lambda>c. c \<noteq> [] \<and> c \<noteq> [46]) (concat (map (py_split 47) (rev names)))"

text \<open>
  The file system below the destination directory: directories, regular files with
  their content and symbolic links with their target, and the access and modification
  times set on them. The operations raise what the POSIX calls behind them report:
  an entry that exists already, an empty link target, a missing parent, a parent that
  is no directory.
  Resolving \<^verbatim>\<open>..\<close> and walking through a symbolic link lead outside this tree;
  the model answers such a call with \<open>Unmodelled\<close>.
\<close>

datatype node = Dir | Reg "byte list" | Lnk pystr

record filesystem =
  nodes :: "pystr list \<rightharpoonup> node"
  times :: "pystr list \<rightharpoonup> int \<times> int"

definition parent_error :: "filesystem \<Rightarrow> pystr list \<Rightarrow> error option" where
  "parent_error fs p =
     (if [46, 46] \<in> set p then Some Unmodelled
      else (case nodes fs (butlast p) of
              None \<Rightarrow> Some FileNotFoundError
            | Some Dir \<Rightarrow> None
            | Some (Reg _) \<Rightarrow> Some NotADirectoryError
            | Some (Lnk _) \<Rightarrow> Some Unmodelled))"

definition os_mkdir :: "filesystem \<Rightarrow> pystr list \<Rightarrow> error + filesystem" where
  "os_mkdir fs p =
     (if nodes fs p \<noteq> None then Inl FileExistsError
      else (case parent_error fs p of
              Some x \<Rightarrow> Inl x
            | None \<Rightarrow> Inr (fs \<lparr> nodes := (nodes fs)(p \<mapsto> Dir) \<rparr>)))"

definition os_symlink :: "pystr \<Rightarrow> filesystem \<Rightarrow> pystr list \<Rightarrow> error + filesystem" where
  "os_symlink src fs p =
     (if src = [] then Inl FileNotFoundError
      else if nodes fs p \<noteq> None then Inl FileExistsError
      else (case parent_error fs p of
              Some x \<Rightarrow> Inl x
            | None \<Rightarrow> Inr (fs \<lparr> nodes := (nodes fs)(p \<mapsto> Lnk src) \<rparr>)))"

text \<open>Opening for writing creates the file or truncates it.\<close>

definition open_wb :: "filesystem \<Rightarrow> pystr list \<Rightarrow> error + filesystem" where
  "open_wb fs p =
     (case parent_error fs p of
        Some x \<Rightarrow> Inl x
      | None \<Rightarrow>
          (case nodes fs p of
             Some Dir \<Rightarrow> Inl IsADirectoryError
           | Some (Lnk _) \<Rightarrow> Inl Unmodelled
           | _ \<Rightarrow> Inr (fs \<lparr> nodes := (nodes fs)(p \<mapsto> Reg []) \<rparr>)))"

definition fout_close :: "filesystem \<Rightarrow> pystr list \<Rightarrow> byte list \<Rightarrow> filesystem" where
  "fout_close fs p written = fs \<lparr> nodes := (nodes fs)(p \<mapsto> Reg written) \<rparr>"

definition os_utime :: "filesystem \<Rightarrow> pystr list \<Rightarrow> int \<times> int \<Rightarrow> error + filesystem" where
  "os_utime fs p t =
     (if [46, 46] \<in> set p then Inl Unmodelled
      else if nodes fs p = None then Inl FileNotFoundError
      else Inr (fs \<lparr> times := (times fs)(p \<mapsto> t) \<rparr>))"

subsection \<open>Writing a file's pages\<close>

text \<open>The slice \<^verbatim>\<open>xs[:k]\<close>; a negative \<open>k\<close> counts from the end.\<close>

definition py_prefix :: "'a list \<Rightarrow> int \<Rightarrow> 'a list" where
  "py_prefix xs k = (if k < 0 then take (length xs - nat (- k)) xs else take (nat k) xs)"

text \<open>
  \<^verbatim>\<open>
  for i_page in range(num_pages):
      page_data = fin.read(self.page_size)
      if i_page < num_pages-1:
          fout.write(page_data)
      else:
          fout.write(page_data[:obj_hdr.file_size%self.page_size])
      fin.seek(self.spare_size, io.SEEK_CUR)
  \<close>
  The function runs over the values of \<^verbatim>\<open>i_page\<close>, from the cursor \<open>pos\<close> and the
  bytes \<open>out\<close> written so far.
\<close>

fun write_pages ::
  "byte list \<Rightarrow> YAFFS_unpacker \<Rightarrow> int \<Rightarrow> int \<Rightarrow> int list \<Rightarrow> nat \<Rightarrow> byte list \<Rightarrow> nat \<times> byte list"
where
  "write_pages content self fsize num_pages [] pos out = (pos, out)"
| "write_pages content self fsize num_pages (i_page # rest) pos out =
     (let page_data = fst (fin_read content pos (int (page_size self)));
          pos1 = snd (fin_read content pos (int (page_size self)));
          out1 = out @ (if i_page < num_pages - 1 then page_data
                        else py_prefix page_data (fsize mod int (page_size self)))
      in write_pages content self fsize num_pages rest (fin_seek_cur pos1 (spare_size self)) out1)"

subsection \<open>Materialising one object\<close>

text \<open>
  The part of a round of \<^verbatim>\<open>unpack\<close> that creates the object, from the cursor
  \<open>pos\<close> and the tree \<open>fs\<close>:
  \<^verbatim>\<open>
  if obj_hdr.type == yaffs_obj_type.YAFFS_OBJECT_TYPE_DIRECTORY:
      os.mkdir(obj_path)
  elif obj_hdr.type == yaffs_obj_type.YAFFS_OBJECT_TYPE_FILE:
      num_pages = (obj_hdr.file_size + self.page_size -1) // self.page_size
      with Path(obj_path).open('wb') as fout:
          for i_page in range(num_pages):
              ...
  elif obj_hdr.type == yaffs_obj_type.YAFFS_OBJECT_TYPE_SYMLINK:
      os.symlink(obj_hdr.alias, obj_path)
  else:
      raise WrongYaffsObjType(obj_hdr.type)
  os.utime(obj_path, (obj_hdr.atime, obj_hdr.mtime), follow_symlinks=False)
  \<close>
\<close>

definition materialize ::
  "byte list \<Rightarrow> YAFFS_unpacker \<Rightarrow> ObjHdr \<Rightarrow> pystr list \<Rightarrow> nat \<Rightarrow> filesystem
     \<Rightarrow> error + nat \<times> filesystem"
where
  "materialize content self obj_hdr obj_path pos fs =
     (case
        (if type obj_hdr = YAFFS_OBJECT_TYPE_DIRECTORY then
           (case os_mkdir fs obj_path of
              Inl x \<Rightarrow> Inl x
            | Inr fs1 \<Rightarrow> Inr (pos, fs1))
         else if type obj_hdr = YAFFS_OBJECT_TYPE_FILE then
           (if page_size self = 0 then Inl ZeroDivisionError
            else
              (let num_pages =
                     (file_size obj_hdr + int (page_size self) - 1) div int (page_size self)
               in case open_wb fs obj_path of
                    Inl x \<Rightarrow> Inl x
                  | Inr fs1 \<Rightarrow>
                      (let r = write_pages content self (file_size obj_hdr) num_pages
                                 [0 .. num_pages - 1] pos []
                       in Inr (fst r, fout_close fs1 obj_path (snd r)))))
         else if type obj_hdr = YAFFS_OBJECT_TYPE_SYMLINK then
           (case os_symlink (alias' obj_hdr) fs obj_path of
              Inl x \<Rightarrow> Inl x
            | Inr fs1 \<Rightarrow> Inr (pos, fs1))
         else Inl (WrongYaffsObjType (type obj_hdr)))
      of
        Inl x \<Rightarrow> Inl x
      | Inr (pos1, fs1) \<Rightarrow>
          (case os_utime fs1 obj_path (atime obj_hdr, mtime obj_hdr) of
             Inl x \<Rightarrow> Inl x
           | Inr fs2 \<Rightarrow> Inr (pos1, fs2)))"

subsection \<open>The scan\<close>

text \<open>\<^verbatim>\<open>except (struct.error, ValueError)\<close>; a \<^verbatim>\<open>UnicodeDecodeError\<close> is a
  \<^verbatim>\<open>ValueError\<close>.\<close>

fun caught :: "error \<Rightarrow> bool" where
  "caught StructError = True"
| "caught (ValueError _) = True"
| "caught UnicodeDecodeError = True"
| "caught _ = False"

text \<open>
  One round of the loop over the object ids: it ends the scan (\<open>Break\<close>), raises,
  or goes on with the next id. \<open>None\<close> is a round that never ends.
  \<^verbatim>\<open>
  try:
      data = fin.read(self.page_size)
      obj_hdr = yoh.get_ObjHdr(data[:yoh.size])
  except (struct.error, ValueError) as ex:
      break
  fin.read(self.spare_size)
  self.objdict[obj_id] = obj_hdr
  obj_path = list(reversed(list(self._unwind_parent_name(obj_id))))
  obj_path = os.sep.join([str(outdir)] + obj_path)
  obj_path = Path(obj_path).absolute()
  \<close>
\<close>

datatype step = Break | Raise error | Next YAFFS_unpacker nat filesystem

definition unpack_step ::
  "byte list \<Rightarrow> YAFFS_unpacker \<Rightarrow> nat \<Rightarrow> int \<Rightarrow> filesystem \<Rightarrow> step option"
where
  "unpack_step content self pos obj_id fs =
     (let data = fst (fin_read content pos (int (page_size self)));
          pos1 = snd (fin_read content pos (int (page_size self)))
      in case get_ObjHdr (endianness self) (take yaffs_obj_hdr_size data) of
           Inl x \<Rightarrow> Some (if caught x then Break else Raise x)
         | Inr obj_hdr \<Rightarrow>
             (let pos2 = snd (fin_read content pos1 (int (spare_size self)));
                  self1 = self \<lparr> objdict := (objdict self)(obj_id \<mapsto> obj_hdr) \<rparr>
              in case unwind_parent_name (objdict self1) obj_id of
                   None \<Rightarrow> None
                 | Some names \<Rightarrow>
                     (case materialize content self1 obj_hdr (obj_path_of names) pos2 fs of
                        Inl x \<Rightarrow> Some (Raise x)
                      | Inr (pos3, fs1) \<Rightarrow> Some (Next self1 pos3 fs1))))"

lemma fin_read_pos: "pos \<le> snd (fin_read content pos n)"
  by (simp add: fin_read_def Let_def)

lemma fin_read_length:
  "length (fst (fin_read content pos n)) \<le> length content - pos"
  by (simp add: fin_read_def Let_def)

lemma write_pages_pos: "pos \<le> fst (write_pages content self fsize num_pages is pos out)"
proof (induction "is" arbitrary: pos out)
  case Nil
  then show ?case by simp
next
  case (Cons i rest)
  have "pos \<le> fin_seek_cur (snd (fin_read content pos (int (page_size self)))) (spare_size self)"
    using fin_read_pos [of pos content "int (page_size self)"]
    by (simp add: fin_seek_cur_def)
  also have "\<dots> \<le> fst (write_pages content self fsize num_pages (i # rest) pos out)"
    using Cons.IH by (simp add: Let_def)
  finally show ?case .
qed

lemma materialize_pos:
  "materialize content self obj_hdr obj_path pos fs = Inr (pos1, fs1) \<Longrightarrow> pos \<le> pos1"
  unfolding materialize_def
  by (auto simp: Let_def write_pages_pos split: if_splits sum.splits prod.splits)

lemma yaffs_obj_hdr_unpack_length:
  "yaffs_obj_hdr_unpack e buf = Inr h \<Longrightarrow> yaffs_obj_hdr_size \<le> length buf"
  unfolding yaffs_obj_hdr_unpack_def
  by (auto split: sum.splits if_splits)

lemma get_ObjHdr_length:
  "get_ObjHdr e buf = Inr h \<Longrightarrow> yaffs_obj_hdr_size \<le> length buf"
  unfolding get_ObjHdr_def
  by (auto split: sum.splits dest: yaffs_obj_hdr_unpack_length)

lemma unpack_step_Next:
  assumes "unpack_step content self pos obj_id fs = Some (Next self1 pos1 fs1)"
  shows "pos < length content \<and> pos < pos1"
proof -
  let ?data = "fst (fin_read content pos (int (page_size self)))"
  let ?p1 = "snd (fin_read content pos (int (page_size self)))"
  from assms obtain obj_hdr pos3' where
    hdr: "get_ObjHdr (endianness self) (take yaffs_obj_hdr_size ?data) = Inr obj_hdr"
    and mat: "materialize content (self \<lparr> objdict := (objdict self)(obj_id \<mapsto> obj_hdr) \<rparr>)
                obj_hdr pos3' (snd (fin_read content ?p1 (int (spare_size self)))) fs
              = Inr (pos1, fs1)"
    unfolding unpack_step_def
    by (auto simp: Let_def split: sum.splits option.splits prod.splits if_splits)
  from get_ObjHdr_length [OF hdr] have len: "yaffs_obj_hdr_size \<le> length ?data"
    by simp
  with fin_read_length [of content pos "int (page_size self)"]
  have "pos + yaffs_obj_hdr_size \<le> length content"
    by (simp add: yaffs_obj_hdr_size_def)
  moreover have "?p1 = pos + length ?data"
    by (simp add: fin_read_def Let_def)
  moreover have "?p1 \<le> snd (fin_read content ?p1 (int (spare_size self)))"
    by (rule fin_read_pos)
  moreover note materialize_pos [OF mat] len
  ultimately show ?thesis
    by (simp add: yaffs_obj_hdr_size_def)
qed

text \<open>
  \<^verbatim>\<open>for obj_id in itertools.count(256+1)\<close>: the rounds follow each other until one
  breaks or raises. The scan returns the unpacker and the tree, or the exception that
  aborted it; \<open>None\<close> is a scan that never returns.
\<close>

function unpack_loop ::
  "byte list \<Rightarrow> YAFFS_unpacker \<Rightarrow> nat \<Rightarrow> int \<Rightarrow> filesystem
     \<Rightarrow> (error + YAFFS_unpacker \<times> filesystem) option"
where
  "unpack_loop content self pos obj_id fs =
     (case unpack_step content self pos obj_id fs of
        None \<Rightarrow> None
      | Some Break \<Rightarrow> Some (Inr (self, fs))
      | Some (Raise x) \<Rightarrow> Some (Inl x)
      | Some (Next self1 pos1 fs1) \<Rightarrow> unpack_loop content self1 pos1 (obj_id + 1) fs1)"
  by pat_completeness auto
termination
proof (relation "measure (\<lambda>(content, self, pos, obj_id, fs). length content - pos)")
  show "wf (measure (\<lambda>(content, self, pos, obj_id, fs). length content - pos))"
    by simp
next
  fix content self pos obj_id fs x2 self1 pos1 fs1
  assume "unpack_step content self pos obj_id fs = Some x2" and "x2 = Next self1 pos1 fs1"
  then have "pos < length content \<and> pos < pos1"
    using unpack_step_Next by blast
  then show "((content, self1, pos1, obj_id + 1, fs1), (content, self, pos, obj_id, fs))
        \<in> measure (\<lambda>(content, self, pos, obj_id, fs). length content - pos)"
    by auto
qed

definition unpack ::
  "byte list \<Rightarrow> filesystem \<Rightarrow> (error + YAFFS_unpacker \<times> filesystem) option"
where
  "unpack content fs =
     (case detect_param init_unpacker content of
        Inl x \<Rightarrow> Some (Inl x)
      | Inr self \<Rightarrow>
          unpack_loop content self
            (if yaffs_version self = 1 then page_size self + spare_size self else 0)
            (256 + 1) fs)"

section \<open>Example images\<close>

text \<open>
  A header page as the structure lays it out: the four bytes of the type, of the parent
  id and of the low and high word of the size, and the name and alias fields are given;
  the reserved fields hold their documented constants and every other field is zero.
\<close>

definition header_page ::
  "byte list \<Rightarrow> byte list \<Rightarrow> byte list \<Rightarrow> byte list \<Rightarrow> byte list \<Rightarrow> byte list \<Rightarrow> byte list"
where
  "header_page ty parent name_bytes size_low size_high alias_bytes =
     ty @ parent @ [0xFF, 0xFF] @ name_bytes @ [0xFF] @ [0xFF, 0xFF]
     @ replicate 24 0 @ size_low @ replicate 4 0 @ alias_bytes @ replicate 36 0
     @ size_high @ replicate 12 0"

definition spare16 :: "byte list" where
  "spare16 = replicate 16 0xFF"

text \<open>The destination directory, empty.\<close>

definition empty_tree :: filesystem where
  "empty_tree = \<lparr> nodes = [[] \<mapsto> Dir], times = Map.empty \<rparr>"

text \<open>The header that opens a version 1 image: its name and alias are all 0xFF.\<close>

definition v1_first_header :: "byte list" where
  "v1_first_header =
     header_page [3, 0, 0, 0] [1, 0, 0, 0] (replicate 255 0xFF) [0, 0, 0, 0]
       [0xFF, 0xFF, 0xFF, 0xFF] (replicate 160 0xFF)"

definition v1_first_record :: ObjHdr where
  "v1_first_record =
     \<lparr> type = YAFFS_OBJECT_TYPE_DIRECTORY, parent_obj_id = 1, name = [], file_mode = 0,
       uid = 0, gid = 0, atime = 0, mtime = 0, ctime = 0, file_size = - 1, alias' = [] \<rparr>"

text \<open>The header of a file named \<^verbatim>\<open>f\<close> of 512 bytes (the low word of the size is
  0x00000200), and the record it decodes to.\<close>

definition file_f_header :: "byte list" where
  "file_f_header =
     header_page [1, 0, 0, 0] [1, 0, 0, 0] (0x66 # replicate 254 0) [0, 2, 0, 0]
       [0xFF, 0xFF, 0xFF, 0xFF] (replicate 160 0)"

definition file_f_record :: ObjHdr where
  "file_f_record =
     \<lparr> type = YAFFS_OBJECT_TYPE_FILE, parent_obj_id = 1, name = [102], file_mode = 0,
       uid = 0, gid = 0, atime = 0, mtime = 0, ctime = 0, file_size = 512, alias' = [] \<rparr>"

text \<open>The header of a directory named \<^verbatim>\<open>d\<close>, and the record it decodes to.\<close>

definition dir_d_header :: "byte list" where
  "dir_d_header =
     header_page [3, 0, 0, 0] [1, 0, 0, 0] (0x64 # replicate 254 0) [0, 0, 0, 0]
       [0xFF, 0xFF, 0xFF, 0xFF] (replicate 160 0)"

definition dir_d_record :: ObjHdr where
  "dir_d_record =
     \<lparr> type = YAFFS_OBJECT_TYPE_DIRECTORY, parent_obj_id = 1, name = [100], file_mode = 0,
       uid = 0, gid = 0, atime = 0, mtime = 0, ctime = 0, file_size = - 1, alias' = [] \<rparr>"

text \<open>A page that is a well-formed header but for its type, the value 7.\<close>

definition bad_type_header :: "byte list" where
  "bad_type_header =
     header_page [7, 0, 0, 0] [1, 0, 0, 0] (0x78 # replicate 254 0) [0, 0, 0, 0]
       [0xFF, 0xFF, 0xFF, 0xFF] (replicate 160 0)"

text \<open>A version 1 image with the file \<^verbatim>\<open>f\<close>: its header and one page of content,
  512 bytes 0x41.\<close>

definition image_full_page_file :: "byte list" where
  "image_full_page_file =
     (v1_first_header @ spare16) @ (file_f_header @ spare16) @ (replicate 512 0x41 @ spare16)"

text \<open>A version 1 image whose second unit has the type value 7, followed by the
  directory \<^verbatim>\<open>d\<close>.\<close>

definition image_bad_type :: "byte list" where
  "image_bad_type =
     (v1_first_header @ spare16) @ (bad_type_header @ spare16) @ (dir_d_header @ spare16)"

text \<open>An erased page, all 0xFF, as it follows the last object of a flash dump, and a
  version 1 image that ends with one.\<close>

definition erased_page :: "byte list" where
  "erased_page = replicate 512 0xFF"

definition image_erased :: "byte list" where
  "image_erased = (v1_first_header @ spare16) @ (erased_page @ spare16)"

text \<open>A version 2 image with 512-byte pages that holds the directory \<^verbatim>\<open>d\<close>
  twice.\<close>

definition image_twice_dir :: "byte list" where
  "image_twice_dir = (dir_d_header @ spare16) @ (dir_d_header @ spare16)"

text \<open>Scenario B of the specification: a file header with the low word 100 and the
  high word 0xFFFFFFFF.\<close>

definition scenario_B_header :: "byte list" where
  "scenario_B_header =
     header_page [1, 0, 0, 0] [1, 0, 0, 0] (0x66 # replicate 254 0) [100, 0, 0, 0]
         [0xFF, 0xFF, 0xFF, 0xFF] (replicate 160 0)"

definition scenario_B_record :: ObjHdr where
  "scenario_B_record =
     \<lparr> type = YAFFS_OBJECT_TYPE_FILE, parent_obj_id = 1, name = [102], file_mode = 0,
       uid = 0, gid = 0, atime = 0, mtime = 0, ctime = 0, file_size = 100, alias' = [] \<rparr>"

text \<open>Scenario A of the specification: the first ten bytes of an image.\<close>

definition scenario_A_preview :: "byte list" where
  "scenario_A_preview = [0x01, 0x00, 0x00, 0x00, 0x01, 0x00, 0x00, 0x00, 0xFF, 0xFF]"

subsection \<open>The parent chain of an object\<close>

text \<open>
  The id reached from \<open>obj_id\<close> after \<open>n\<close> steps to the parent, as long as every id
  on the way, the one reached included, is in the registry; \<open>None\<close> when the chain has
  left the registry by then.
\<close>

fun parent_chain :: "(int \<rightharpoonup> ObjHdr) \<Rightarrow> nat \<Rightarrow> int \<Rightarrow> int option" where
  "parent_chain od 0 obj_id = (if od obj_id = None then None else Some obj_id)"
| "parent_chain od (Suc n) obj_id =
     (case od obj_id of
        None \<Rightarrow> None
      | Some h \<Rightarrow> parent_chain od n (parent_obj_id h))"

text \<open>A registry with the one object 257 that is its own parent.\<close>

definition self_parent_registry :: "int \<rightharpoonup> ObjHdr" where
  "self_parent_registry = [257 \<mapsto> dir_d_record \<lparr> parent_obj_id := 257 \<rparr>]"

text \<open>The unpacker after the detection on a version 1 image, and on a version 2 image
  with pages of 512 bytes.\<close>

definition v1_unpacker :: YAFFS_unpacker where
  "v1_unpacker =
     init_unpacker \<lparr> endianness := LITTLE_ENDIAN, yaffs_version := 1,
                     page_size := 512, spare_size := 16 \<rparr>"

definition v2_unpacker :: YAFFS_unpacker where
  "v2_unpacker =
     init_unpacker \<lparr> endianness := LITTLE_ENDIAN, yaffs_version := 2,
                     page_size := 512, spare_size := 16 \<rparr>"

text \<open>The destination directory with the directory \<^verbatim>\<open>d\<close> in it, its times set
  to those of the header.\<close>

definition tree_with_d :: filesystem where
  "tree_with_d = \<lparr> nodes = [[] \<mapsto> Dir, [[100]] \<mapsto> Dir], times = [[[100]] \<mapsto> (0, 0)] \<rparr>"

text \<open>A version 2 image of one unit: the directory \<^verbatim>\<open>d\<close> with the parent id 257
  (bytes 01 01 00 00), the id that the scan gives to the first object.\<close>

definition self_parent_header :: "byte list" where
  "self_parent_header =
     header_page [3, 0, 0, 0] [1, 1, 0, 0] (0x64 # replicate 254 0) [0, 0, 0, 0]
       [0xFF, 0xFF, 0xFF, 0xFF] (replicate 160 0)"

definition image_self_parent :: "byte list" where
  "image_self_parent = self_parent_header @ spare16"

text \<open>The destination directory with an empty file \<^verbatim>\<open>f\<close> in it.\<close>

definition tree_with_empty_f :: filesystem where
  "tree_with_empty_f =
     \<lparr> nodes = [[] \<mapsto> Dir, [[102]] \<mapsto> Reg []], times = [[[102]] \<mapsto> (0, 0)] \<rparr>"

section \<open>Properties\<close>

subsection \<open>Sentinel strings\<close>

lemma py_split_first:
  "py_split sep data = takeWhile (\<lambda>b. b \<noteq> sep) data # tl (py_split sep data)"
  by (induction data) (auto split: list.splits)

text \<open>
  C6. A field whose bytes are all 0xFF decodes to the empty string. Any other field
  decodes to the UTF-8 text of the bytes strictly before its first null byte (the whole
  field when it has none); in particular what follows the first null byte has no
  influence on the result.
\<close>

theorem c_null_term_str_to_str_sentinel_rule:
  "c_null_term_str_to_str data =
     (if list_all (\<lambda>b. b = 0xFF) data then Inr []
      else utf8_decode (takeWhile (\<lambda>b. b \<noteq> 0) data))
   \<and> (0 \<notin> set pre \<longrightarrow> c_null_term_str_to_str (pre @ 0 # post) = utf8_decode pre)"
proof (intro conjI impI)
  show "c_null_term_str_to_str data =
     (if list_all (\<lambda>b. b = 0xFF) data then Inr []
      else utf8_decode (takeWhile (\<lambda>b. b \<noteq> 0) data))"
    unfolding c_null_term_str_to_str_def
    by (subst py_split_first) simp
next
  assume pre: "0 \<notin> set pre"
  have "takeWhile (\<lambda>b. b \<noteq> 0) (pre @ 0 # post) = pre"
    using pre by (induction pre) auto
  moreover have "\<not> list_all (\<lambda>b. b = 0xFF) (pre @ 0 # post)"
    by simp
  ultimately show "c_null_term_str_to_str (pre @ 0 # post) = utf8_decode pre"
    unfolding c_null_term_str_to_str_def
    by (subst py_split_first) simp
qed

theorem c_null_term_str_to_str_sentinel_rule_witness:
  "c_null_term_str_to_str [0xFF, 0xFF, 0xFF] = Inr []
   \<and> c_null_term_str_to_str [0x61, 0x62, 0, 0x63, 0xFF] = Inr [97, 98]
   \<and> (0::byte) \<notin> set [0x61, 0x62]
   \<and> c_null_term_str_to_str ([0x61, 0x62] @ 0 # [0x63, 0xFF]) = utf8_decode [0x61, 0x62]"
  using c_null_term_str_to_str_sentinel_rule [of "[0xFF, 0xFF, 0xFF]" "[0x61, 0x62]" "[0x63, 0xFF]"]
    c_null_term_str_to_str_sentinel_rule [of "[0x61, 0x62, 0, 0x63, 0xFF]" "[0x61, 0x62]" "[0x63, 0xFF]"]
  by simp

subsection \<open>The assembled file size\<close>

lemma get_ObjHdr_fields:
  assumes "get_ObjHdr e data = Inr oh"
  shows "yaffs_obj_type_of (field_sint e data 0 4) = Inr (type oh)"
    and "file_size oh =
          (if type oh = YAFFS_OBJECT_TYPE_FILE then
             (if field_uint e data 496 4 \<noteq> 0xFFFFFFFF
              then field_uint e data 292 4 OR push_bit 32 (field_uint e data 496 4)
              else field_uint e data 292 4)
           else - 1)"
  using assms
  unfolding get_ObjHdr_def yaffs_obj_hdr_unpack_def unpack_from_signed_def
  by (auto split: sum.splits if_splits)

lemma le_uint_bounds: "0 \<le> le_uint bs \<and> le_uint bs < 256 ^ length bs"
proof (induction bs)
  case Nil
  then show ?case by simp
next
  case (Cons b bs)
  have "0 \<le> uint b" "uint b < 256"
    using uint_bounded [of b] by simp_all
  with Cons show ?case by simp
qed

lemma le_uint_less: "length bs \<le> n \<Longrightarrow> le_uint bs < 256 ^ n"
proof -
  assume "length bs \<le> n"
  then have "(256::int) ^ length bs \<le> 256 ^ n"
    by (intro power_increasing) simp_all
  with le_uint_bounds [of bs] show ?thesis by linarith
qed

lemma field_uint_bounds: "0 \<le> field_uint e buf off n \<and> field_uint e buf off n < 256 ^ n"
  unfolding field_uint_def bytes_uint_def
  by (cases e) (simp_all add: le_uint_bounds le_uint_less)

text \<open>
  C2. A decoded header of type File has the size \<open>file_size_low\<close> (the word at
  offset 292) alone when \<open>file_size_high\<close> (the word at offset 496) is 0xFFFFFFFF, and
  \<open>file_size_low OR (file_size_high << 32)\<close> otherwise; a decoded header of any other
  type has the size \<open>-1\<close>.
\<close>

theorem get_ObjHdr_file_size:
  "get_ObjHdr e data = Inr oh \<Longrightarrow>
     (type oh = YAFFS_OBJECT_TYPE_FILE \<longrightarrow>
        file_size oh =
          (if field_uint e data 496 4 = 0xFFFFFFFF then field_uint e data 292 4
           else field_uint e data 292 4 OR push_bit 32 (field_uint e data 496 4)))
     \<and> (type oh \<noteq> YAFFS_OBJECT_TYPE_FILE \<longrightarrow> file_size oh = - 1)"
  using get_ObjHdr_fields(2) [of e data oh] by simp

lemma scenario_B_decodes: "get_ObjHdr LITTLE_ENDIAN scenario_B_header = Inr scenario_B_record"
  by code_simp

lemma scenario_B_words:
  "field_uint LITTLE_ENDIAN scenario_B_header 496 4 = 0xFFFFFFFF"
  "field_uint LITTLE_ENDIAN scenario_B_header 292 4 = 100"
  by code_simp+

theorem get_ObjHdr_file_size_witness:
  "get_ObjHdr LITTLE_ENDIAN scenario_B_header = Inr scenario_B_record
   \<and> type scenario_B_record = YAFFS_OBJECT_TYPE_FILE
   \<and> field_uint LITTLE_ENDIAN scenario_B_header 496 4 = 0xFFFFFFFF
   \<and> file_size scenario_B_record = field_uint LITTLE_ENDIAN scenario_B_header 292 4
   \<and> file_size scenario_B_record = 100"
  using get_ObjHdr_file_size [OF scenario_B_decodes] scenario_B_decodes scenario_B_words
  by (simp add: scenario_B_record_def)


subsection \<open>Byte order detection\<close>

lemma in_1_5: "(x::int) \<in> {1..5} \<longleftrightarrow> x = 1 \<or> x = 2 \<or> x = 3 \<or> x = 4 \<or> x = 5"
  by (simp only: atLeastAtMost_iff) presburger

lemma detect_endianness_little:
  "detect_endianness ymh = Inr LITTLE_ENDIAN \<longleftrightarrow> magic_type ymh \<in> {1..5}"
  unfolding detect_endianness_def in_1_5 by simp

lemma big_values:
  "(\<exists>v\<in>{1..5}. (t::int) = push_bit 24 v)
   \<longleftrightarrow> t = 16777216 \<or> t = 33554432 \<or> t = 50331648 \<or> t = 67108864 \<or> t = 83886080"
  unfolding Bex_def in_1_5 push_bit_eq_mult conj_disj_distribR ex_disj_distrib
  by simp

lemma detect_endianness_big:
  "detect_endianness ymh = Inr BIG_ENDIAN \<longleftrightarrow> (\<exists>v\<in>{1..5}. magic_type ymh = push_bit 24 v)"
proof -
  have "detect_endianness ymh = Inr BIG_ENDIAN
        \<longleftrightarrow> magic_type ymh = 16777216 \<or> magic_type ymh = 33554432
          \<or> magic_type ymh = 50331648 \<or> magic_type ymh = 67108864
          \<or> magic_type ymh = 83886080"
    unfolding detect_endianness_def push_bit_eq_mult by auto
  then show ?thesis
    by (simp only: big_values)
qed

lemma detect_endianness_error:
  "detect_endianness ymh = Inl CorruptedType
   \<longleftrightarrow> magic_type ymh \<notin> {1..5} \<and> \<not> (\<exists>v\<in>{1..5}. magic_type ymh = push_bit 24 v)"
proof -
  have "detect_endianness ymh = Inl CorruptedType
        \<longleftrightarrow> detect_endianness ymh \<noteq> Inr LITTLE_ENDIAN \<and> detect_endianness ymh \<noteq> Inr BIG_ENDIAN"
    unfolding detect_endianness_def by simp
  then show ?thesis
    by (simp only: detect_endianness_little detect_endianness_big)
qed

lemma yaffs_magic_header_unpack_10:
  "length preview = 10 \<Longrightarrow>
   yaffs_magic_header_unpack e preview =
     Inr \<lparr> magic_type = field_uint e preview 0 4,
           magic_parent_obj_id = field_uint e preview 4 4,
           always_0xFFFF = field_uint e preview 8 2 \<rparr>"
  unfolding yaffs_magic_header_unpack_def unpack_from_def by simp

text \<open>
  C5. For a preview of ten bytes the magic header unpacks, its type is the first four
  bytes read least significant byte first, and the byte order detected is little-endian
  exactly when the type is in 1..5, big-endian exactly when the type is \<open>v << 24\<close>
  for some \<open>v\<close> in 1..5, and the detection raises \<open>CorruptedType\<close> exactly for
  every other value.
\<close>

theorem detect_endianness_cases:
  "length preview = 10 \<Longrightarrow>
   (\<exists>ymh. yaffs_magic_header_unpack LITTLE_ENDIAN preview = Inr ymh
      \<and> magic_type ymh = field_uint LITTLE_ENDIAN preview 0 4
      \<and> (detect_endianness ymh = Inr LITTLE_ENDIAN \<longleftrightarrow> magic_type ymh \<in> {1..5})
      \<and> (detect_endianness ymh = Inr BIG_ENDIAN
           \<longleftrightarrow> (\<exists>v\<in>{1..5}. magic_type ymh = push_bit 24 v))
      \<and> (detect_endianness ymh = Inl CorruptedType
           \<longleftrightarrow> magic_type ymh \<notin> {1..5} \<and> \<not> (\<exists>v\<in>{1..5}. magic_type ymh = push_bit 24 v)))"
  using yaffs_magic_header_unpack_10 [of preview LITTLE_ENDIAN]
    detect_endianness_little detect_endianness_big detect_endianness_error
  by simp

lemma scenario_A_unpack:
  "yaffs_magic_header_unpack LITTLE_ENDIAN scenario_A_preview
   = Inr \<lparr> magic_type = 1, magic_parent_obj_id = 1, always_0xFFFF = 0xFFFF \<rparr>"
  by code_simp

theorem detect_endianness_cases_witness:
  "length scenario_A_preview = 10
   \<and> yaffs_magic_header_unpack LITTLE_ENDIAN scenario_A_preview
       = Inr \<lparr> magic_type = 1, magic_parent_obj_id = 1, always_0xFFFF = 0xFFFF \<rparr>
   \<and> detect_endianness \<lparr> magic_type = 1, magic_parent_obj_id = 1, always_0xFFFF = 0xFFFF \<rparr>
       = Inr LITTLE_ENDIAN"
proof -
  have len: "length scenario_A_preview = 10"
    by (simp add: scenario_A_preview_def)
  from detect_endianness_cases [OF len] scenario_A_unpack len show ?thesis
    by auto
qed

subsection \<open>The format sniff\<close>

lemma byte_pinned:
  "(x \<le> b \<and> b \<le> x \<and> R) = (b = x \<and> R)" "(x \<le> b \<and> b \<le> x) = (b = x)"
  for b :: byte
  by auto

lemma re_match_yaffs_le:
  "re_match yaffs_le d \<longleftrightarrow>
     (\<exists>b0 rest. d = b0 # 0 # 0 # 0 # 1 # 0 # 0 # 0 # 0xFF # 0xFF # rest \<and> 1 \<le> b0 \<and> b0 \<le> 5)"
  unfolding yaffs_le_def
  by (auto simp add: eval_nat_numeral byte_pinned split: list.splits) 

lemma re_match_yaffs_be:
  "re_match yaffs_be d \<longleftrightarrow>
     (\<exists>b3 rest. d = 0 # 0 # 0 # b3 # 0 # 0 # 0 # 1 # 0xFF # 0xFF # rest \<and> 1 \<le> b3 \<and> b3 \<le> 5)"
  unfolding yaffs_be_def
  by (auto simp add: eval_nat_numeral byte_pinned split: list.splits)

lemma digit_step:
  fixes a a' x y :: int
  assumes "0 \<le> a" "a < 256" "0 \<le> a'" "a' < 256"
  shows "a + 256 * x = a' + 256 * y \<longleftrightarrow> a = a' \<and> x = y"
proof
  assume eq: "a + 256 * x = a' + 256 * y"
  then have "(a + 256 * x) mod 256 = (a' + 256 * y) mod 256"
    by simp
  then have "a = a'"
    using assms by simp
  with eq show "a = a' \<and> x = y"
    by simp
next
  assume "a = a' \<and> x = y"
  then show "a + 256 * x = a' + 256 * y"
    by simp
qed

lemma uint_byte_range: "0 \<le> uint b \<and> uint b < 256" for b :: byte
  using uint_bounded [of b] by simp

lemma byte_digit:
  "uint b + 256 * x = uint c + 256 * y \<longleftrightarrow> b = c \<and> x = y" for b c :: byte
  using digit_step [of "uint b" "uint c" x y] uint_byte_range [of b] uint_byte_range [of c]
    word_uint_eq_iff [of b c]
  by blast

lemma uint_eq_byte: "uint b = uint c \<longleftrightarrow> b = c" for b c :: byte
  by (simp only: word_uint_eq_iff)

lemma le32_eq:
  "uint b0 + 256 * (uint b1 + 256 * (uint b2 + 256 * uint b3))
     = uint c0 + 256 * (uint c1 + 256 * (uint c2 + 256 * uint c3))
   \<longleftrightarrow> b0 = c0 \<and> b1 = c1 \<and> b2 = c2 \<and> b3 = c3"
  for b0 b1 b2 b3 c0 c1 c2 c3 :: byte
  by (simp only: byte_digit uint_eq_byte)

lemma le16_eq:
  "uint b0 + 256 * uint b1 = uint c0 + 256 * uint c1 \<longleftrightarrow> b0 = c0 \<and> b1 = c1"
  for b0 b1 c0 c1 :: byte
  by (simp only: byte_digit uint_eq_byte)
lemma le_uint4_eq:
  "le_uint [b0, b1, b2, b3] = le_uint [c0, c1, c2, c3]
   \<longleftrightarrow> b0 = c0 \<and> b1 = c1 \<and> b2 = c2 \<and> b3 = c3"
  using le32_eq [of b0 b1 b2 b3 c0 c1 c2 c3] by simp

lemma le_uint2_eq:
  "le_uint [b0, b1] = le_uint [c0, c1] \<longleftrightarrow> b0 = c0 \<and> b1 = c1"
  using le16_eq [of b0 b1 c0 c1] by simp

lemma byte_1_5: "1 \<le> b \<and> b \<le> 5 \<longleftrightarrow> b = 1 \<or> b = 2 \<or> b = 3 \<or> b = 4 \<or> b = 5"
  for b :: byte
proof -
  have "1 \<le> b \<and> b \<le> 5 \<longleftrightarrow> uint b \<in> {1..5}"
    by (simp add: word_le_def)
  also have "\<dots> \<longleftrightarrow> uint b = uint (1::byte) \<or> uint b = uint (2::byte) \<or> uint b = uint (3::byte)
      \<or> uint b = uint (4::byte) \<or> uint b = uint (5::byte)"
    unfolding in_1_5 by simp
  also have "\<dots> \<longleftrightarrow> b = 1 \<or> b = 2 \<or> b = 3 \<or> b = 4 \<or> b = 5"
    by (simp only: uint_eq_byte)
  finally show ?thesis .
qed

lemma type_little_bytes:
  "le_uint [b0, b1, b2, b3] \<in> {1..5} \<longleftrightarrow> 1 \<le> b0 \<and> b0 \<le> 5 \<and> b1 = 0 \<and> b2 = 0 \<and> b3 = 0"
proof -
  have c: "(1::int) = le_uint [1, 0, 0, 0]" "(2::int) = le_uint [2, 0, 0, 0]"
    "(3::int) = le_uint [3, 0, 0, 0]" "(4::int) = le_uint [4, 0, 0, 0]"
    "(5::int) = le_uint [5, 0, 0, 0]"
    by simp_all
  have "le_uint [b0, b1, b2, b3] \<in> {1..5}
        \<longleftrightarrow> (b0 = 1 \<or> b0 = 2 \<or> b0 = 3 \<or> b0 = 4 \<or> b0 = 5) \<and> b1 = 0 \<and> b2 = 0 \<and> b3 = 0"
    unfolding in_1_5
    by (subst c(1), subst c(2), subst c(3), subst c(4), subst c(5), simp only: le_uint4_eq) blast
  then show ?thesis
    using byte_1_5 [of b0] by blast
qed

lemma type_big_bytes:
  "(\<exists>v\<in>{1..5}. le_uint [b0, b1, b2, b3] = push_bit 24 v)
   \<longleftrightarrow> b0 = 0 \<and> b1 = 0 \<and> b2 = 0 \<and> 1 \<le> b3 \<and> b3 \<le> 5"
proof -
  have c: "(16777216::int) = le_uint [0, 0, 0, 1]" "(33554432::int) = le_uint [0, 0, 0, 2]"
    "(50331648::int) = le_uint [0, 0, 0, 3]" "(67108864::int) = le_uint [0, 0, 0, 4]"
    "(83886080::int) = le_uint [0, 0, 0, 5]"
    by simp_all
  have "(\<exists>v\<in>{1..5}. le_uint [b0, b1, b2, b3] = push_bit 24 v)
        \<longleftrightarrow> b0 = 0 \<and> b1 = 0 \<and> b2 = 0 \<and> (b3 = 1 \<or> b3 = 2 \<or> b3 = 3 \<or> b3 = 4 \<or> b3 = 5)"
    unfolding big_values
    by (subst c(1), subst c(2), subst c(3), subst c(4), subst c(5), simp only: le_uint4_eq) blast
  then show ?thesis
    using byte_1_5 [of b3] by blast
qed

lemma parent_little_bytes:
  "le_uint [b4, b5, b6, b7] = 1 \<longleftrightarrow> b4 = 1 \<and> b5 = 0 \<and> b6 = 0 \<and> b7 = 0"
  using le_uint4_eq [of b4 b5 b6 b7 1 0 0 0] by simp

lemma parent_big_bytes:
  "le_uint [b4, b5, b6, b7] = push_bit 24 1 \<longleftrightarrow> b4 = 0 \<and> b5 = 0 \<and> b6 = 0 \<and> b7 = 1"
  using le_uint4_eq [of b4 b5 b6 b7 0 0 0 1] by simp

lemma flag_bytes:
  "le_uint [b8, b9] = 0xFFFF \<longleftrightarrow> b8 = 0xFF \<and> b9 = 0xFF"
  using le_uint2_eq [of b8 b9 "0xFF" "0xFF"] by simp
lemma list_of_length_10:
  "length d = 10 \<Longrightarrow> \<exists>b0 b1 b2 b3 b4 b5 b6 b7 b8 b9. d = [b0, b1, b2, b3, b4, b5, b6, b7, b8, b9]"
  by (auto simp: eval_nat_numeral length_Suc_conv)

lemma magic_of_10_bytes:
  "yaffs_magic_header_unpack LITTLE_ENDIAN [b0, b1, b2, b3, b4, b5, b6, b7, b8, b9]
   = Inr \<lparr> magic_type = le_uint [b0, b1, b2, b3],
           magic_parent_obj_id = le_uint [b4, b5, b6, b7],
           always_0xFFFF = le_uint [b8, b9] \<rparr>"
  by (simp add: yaffs_magic_header_unpack_def unpack_from_def field_uint_def bytes_uint_def)

lemma magic_of_short:
  "length d < 10 \<Longrightarrow> yaffs_magic_header_unpack e d = Inl StructError"
  by (simp add: yaffs_magic_header_unpack_def unpack_from_def)

lemma re_match_yaffs_le_length: "re_match yaffs_le d \<Longrightarrow> 10 \<le> length d"
  unfolding re_match_yaffs_le by auto

lemma re_match_yaffs_be_length: "re_match yaffs_be d \<Longrightarrow> 10 \<le> length d"
  unfolding re_match_yaffs_be by auto

text \<open>
  C9 (as the code has it). The sniff returns true exactly when the first ten bytes
  unpack as a magic header whose flag is 0xFFFF and whose type and parent id are, in one
  and the same byte order, a value in 1..5 and the value 1: little-endian (type in 1..5,
  parent id 1) or big-endian (type \<open>v << 24\<close> with \<open>v\<close> in 1..5, parent id
  \<open>1 << 24\<close> when read least significant byte first). The type and the flag alone do
  not decide it.
\<close>

theorem detect_yaffs_iff:
  "detect_yaffs content \<longleftrightarrow>
     (case yaffs_magic_header_unpack LITTLE_ENDIAN (take 10 content) of
        Inl x \<Rightarrow> False
      | Inr m \<Rightarrow>
          always_0xFFFF m = 0xFFFF
          \<and> (magic_type m \<in> {1..5} \<and> magic_parent_obj_id m = 1
             \<or> (\<exists>v\<in>{1..5}. magic_type m = push_bit 24 v)
                \<and> magic_parent_obj_id m = push_bit 24 1))"
proof -
  have sniff: "detect_yaffs content
               \<longleftrightarrow> re_match yaffs_le (take 10 content) \<or> re_match yaffs_be (take 10 content)"
    by (auto simp add: detect_yaffs_def fin_read_def Let_def)
  show ?thesis
  proof (cases "length content < 10")
    case True
    then have short: "length (take 10 content) < 10"
      by simp
    then have "\<not> re_match yaffs_le (take 10 content)" "\<not> re_match yaffs_be (take 10 content)"
      using re_match_yaffs_le_length [of "take 10 content"]
        re_match_yaffs_be_length [of "take 10 content"]
      by linarith+
    with magic_of_short [OF short] sniff show ?thesis
      by simp
  next
    case False
    then have "length (take 10 content) = 10"
      by simp
    from list_of_length_10 [OF this] obtain b0 b1 b2 b3 b4 b5 b6 b7 b8 b9
      where d: "take 10 content = [b0, b1, b2, b3, b4, b5, b6, b7, b8, b9]"
      by (elim exE)
    have le: "re_match yaffs_le [b0, b1, b2, b3, b4, b5, b6, b7, b8, b9]
              \<longleftrightarrow> le_uint [b8, b9] = 0xFFFF \<and> le_uint [b0, b1, b2, b3] \<in> {1..5}
                  \<and> le_uint [b4, b5, b6, b7] = 1"
      unfolding re_match_yaffs_le flag_bytes type_little_bytes parent_little_bytes
      by auto
    have be: "re_match yaffs_be [b0, b1, b2, b3, b4, b5, b6, b7, b8, b9]
              \<longleftrightarrow> le_uint [b8, b9] = 0xFFFF
                  \<and> (\<exists>v\<in>{1..5}. le_uint [b0, b1, b2, b3] = push_bit 24 v)
                  \<and> le_uint [b4, b5, b6, b7] = push_bit 24 1"
      unfolding re_match_yaffs_be flag_bytes type_big_bytes parent_big_bytes
      by auto
    show ?thesis
      unfolding sniff d magic_of_10_bytes le be
      by (simp del: le_uint.simps) blast
  qed
qed

theorem detect_yaffs_iff_witness:
  "detect_yaffs scenario_A_preview"
proof -
  have "yaffs_magic_header_unpack LITTLE_ENDIAN (take 10 scenario_A_preview)
        = Inr \<lparr> magic_type = 1, magic_parent_obj_id = 1, always_0xFFFF = 0xFFFF \<rparr>"
    by code_simp
  with detect_yaffs_iff [of scenario_A_preview] show ?thesis
    by simp
qed

text \<open>
  The claim as stated fails: these ten bytes have the type 1 and the flag 0xFFFF, the
  parent id 2, and the sniff rejects them.
\<close>

theorem detect_yaffs_parent_counterexample:
  "yaffs_magic_header_unpack LITTLE_ENDIAN [0x01, 0, 0, 0, 0x02, 0, 0, 0, 0xFF, 0xFF]
     = Inr \<lparr> magic_type = 1, magic_parent_obj_id = 2, always_0xFFFF = 0xFFFF \<rparr>
   \<and> (1::int) \<in> {1..5}
   \<and> \<not> detect_yaffs [0x01, 0, 0, 0, 0x02, 0, 0, 0, 0xFF, 0xFF]"
  by code_simp

subsection \<open>The example images\<close>

lemma page_lengths:
  "length v1_first_header = 512" "length file_f_header = 512" "length dir_d_header = 512"
  "length bad_type_header = 512" "length spare16 = 16"
  by (simp_all add: v1_first_header_def file_f_header_def dir_d_header_def bad_type_header_def
        spare16_def header_page_def)

lemma dir_d_decodes: "get_ObjHdr LITTLE_ENDIAN dir_d_header = Inr dir_d_record"
  by code_simp

lemma dir_d_magic:
  "yaffs_magic_header_unpack LITTLE_ENDIAN (take 10 dir_d_header)
   = Inr \<lparr> magic_type = 3, magic_parent_obj_id = 1, always_0xFFFF = 0xFFFF \<rparr>"
  by code_simp

lemma dir_d_not_fill: "\<not> list_all (\<lambda>b. b = 0xFF) dir_d_header"
  by code_simp

lemma twice_dir_probe:
  "find (test_page_size image_twice_dir) [16384, 8192, 4096, 2048, 512] = Some 512"
  by (simp add: test_page_size_def fin_read_def image_twice_dir_def page_lengths
        yaffs_obj_hdr_size_def dir_d_not_fill)

lemma v1_first_decodes: "get_ObjHdr LITTLE_ENDIAN v1_first_header = Inr v1_first_record"
  by code_simp

lemma v1_first_magic:
  "yaffs_magic_header_unpack LITTLE_ENDIAN (take 10 v1_first_header)
   = Inr \<lparr> magic_type = 3, magic_parent_obj_id = 1, always_0xFFFF = 0xFFFF \<rparr>"
  by code_simp

lemma magic_3_little:
  "detect_endianness \<lparr> magic_type = 3, magic_parent_obj_id = 1, always_0xFFFF = 0xFFFF \<rparr>
   = Inr LITTLE_ENDIAN"
  by (simp add: detect_endianness_def)


subsection \<open>Geometry detection\<close>

lemma select_page_size_find:
  "select_page_size content cands =
     (case find (test_page_size content) cands of None \<Rightarrow> - 1 | Some psz \<Rightarrow> psz)"
  by (induction cands) simp_all

lemma test_page_size_iff:
  "0 \<le> psz \<Longrightarrow>
   test_page_size content psz
   \<longleftrightarrow> (\<forall>i. yaffs_obj_hdr_size \<le> i \<and> i < nat psz \<and> i < length content \<longrightarrow> content ! i = 0xFF)"
proof -
  assume psz: "0 \<le> psz"
  have "test_page_size content psz
        \<longleftrightarrow> list_all (\<lambda>b. b = 0xFF) (drop yaffs_obj_hdr_size (take (nat psz) content))"
    using psz by (simp add: test_page_size_def fin_read_def Let_def)
  also have "\<dots> \<longleftrightarrow> (\<forall>j < length (drop yaffs_obj_hdr_size (take (nat psz) content)).
                          drop yaffs_obj_hdr_size (take (nat psz) content) ! j = 0xFF)"
    by (simp add: list_all_length)
  also have "\<dots> \<longleftrightarrow> (\<forall>i. yaffs_obj_hdr_size \<le> i \<and> i < nat psz \<and> i < length content
                          \<longrightarrow> content ! i = 0xFF)"
  proof
    assume a: "\<forall>j < length (drop yaffs_obj_hdr_size (take (nat psz) content)).
                 drop yaffs_obj_hdr_size (take (nat psz) content) ! j = 0xFF"
    show "\<forall>i. yaffs_obj_hdr_size \<le> i \<and> i < nat psz \<and> i < length content \<longrightarrow> content ! i = 0xFF"
    proof (intro allI impI)
      fix i
      assume i: "yaffs_obj_hdr_size \<le> i \<and> i < nat psz \<and> i < length content"
      then have "i - yaffs_obj_hdr_size < length (drop yaffs_obj_hdr_size (take (nat psz) content))"
        by auto
      from a [rule_format, OF this] i show "content ! i = 0xFF"
        by simp
    qed
  next
    assume a: "\<forall>i. yaffs_obj_hdr_size \<le> i \<and> i < nat psz \<and> i < length content \<longrightarrow> content ! i = 0xFF"
    show "\<forall>j < length (drop yaffs_obj_hdr_size (take (nat psz) content)).
                 drop yaffs_obj_hdr_size (take (nat psz) content) ! j = 0xFF"
    proof (intro allI impI)
      fix j
      assume j: "j < length (drop yaffs_obj_hdr_size (take (nat psz) content))"
      then have "yaffs_obj_hdr_size \<le> yaffs_obj_hdr_size + j \<and> yaffs_obj_hdr_size + j < nat psz
                 \<and> yaffs_obj_hdr_size + j < length content"
        by auto
      moreover have "drop yaffs_obj_hdr_size (take (nat psz) content) ! j
                     = content ! (yaffs_obj_hdr_size + j)"
        using j by (subst nth_drop) auto
      ultimately show "drop yaffs_obj_hdr_size (take (nat psz) content) ! j = 0xFF"
        using a by simp
    qed
  qed
  finally show ?thesis .
qed

lemma detect_param_unfold:
  assumes "yaffs_magic_header_unpack LITTLE_ENDIAN (take 10 content) = Inr ymh"
    and "detect_endianness ymh = Inr en"
    and "get_ObjHdr en (take 512 content) = Inr obj_hdr"
  shows "detect_param self content =
     (if name obj_hdr = [] \<and> alias' obj_hdr = [] then
        Inr (self \<lparr> endianness := en, yaffs_version := 1, page_size := 512, spare_size := 16 \<rparr>)
      else if select_page_size content allowed_page_size = - 1 then Inl WrongPageSize
      else Inr (self \<lparr> endianness := en, yaffs_version := 2,
                        page_size := nat (select_page_size content allowed_page_size),
                        spare_size := nat (select_page_size content allowed_page_size) div 32 \<rparr>))"
  using assms
  by (simp add: detect_param_def fin_read_def yaffs_magic_header_size_def yaffs_obj_hdr_size_def
        Let_def)

lemma find_in_set: "find P xs = Some x \<Longrightarrow> x \<in> set xs \<and> P x"
  by (induction xs) (auto split: if_splits)

text \<open>
  C3. Let the magic header unpack, the byte order be detected and the first header
  decode. If the name or the alias of that header is not empty, the detection takes
  version 2 and the first page size in the order 16384, 8192, 4096, 2048, 512 that passes
  the test, with the spare size a 32nd of it, and raises \<open>WrongPageSize\<close> when none
  passes. If both are empty it takes version 1 with the page size 512 and the spare size
  16. A page size passes the test exactly when every byte of the stream from offset 512
  up to the page size (or the end of the stream) is 0xFF.
\<close>

theorem detect_param_geometry:
  assumes "yaffs_magic_header_unpack LITTLE_ENDIAN (take 10 content) = Inr ymh"
    and "detect_endianness ymh = Inr en"
    and "get_ObjHdr en (take 512 content) = Inr obj_hdr"
  shows "(name obj_hdr \<noteq> [] \<or> alias' obj_hdr \<noteq> [] \<longrightarrow>
            (case find (test_page_size content) [16384, 8192, 4096, 2048, 512] of
               None \<Rightarrow> detect_param self content = Inl WrongPageSize
             | Some psz \<Rightarrow>
                 detect_param self content =
                   Inr (self \<lparr> endianness := en, yaffs_version := 2,
                               page_size := nat psz, spare_size := nat psz div 32 \<rparr>)))
       \<and> (name obj_hdr = [] \<and> alias' obj_hdr = [] \<longrightarrow>
            detect_param self content =
              Inr (self \<lparr> endianness := en, yaffs_version := 1,
                          page_size := 512, spare_size := 16 \<rparr>))
       \<and> list_all (\<lambda>psz. test_page_size content psz
                      \<longleftrightarrow> (\<forall>i. yaffs_obj_hdr_size \<le> i \<and> i < nat psz \<and> i < length content
                               \<longrightarrow> content ! i = 0xFF))
            [16384, 8192, 4096, 2048, 512]"
proof (intro conjI impI)
  assume v2: "name obj_hdr \<noteq> [] \<or> alias' obj_hdr \<noteq> []"
  show "case find (test_page_size content) [16384, 8192, 4096, 2048, 512] of
          None \<Rightarrow> detect_param self content = Inl WrongPageSize
        | Some psz \<Rightarrow>
            detect_param self content =
              Inr (self \<lparr> endianness := en, yaffs_version := 2,
                          page_size := nat psz, spare_size := nat psz div 32 \<rparr>)"
  proof (cases "find (test_page_size content) [16384, 8192, 4096, 2048, 512]")
    case None
    then have "select_page_size content allowed_page_size = - 1"
      by (simp only: select_page_size_find allowed_page_size_def option.case)
    with v2 None show ?thesis
      by (simp only: detect_param_unfold [OF assms] option.case) auto
  next
    case (Some psz)
    then have sel: "select_page_size content allowed_page_size = psz"
      by (simp only: select_page_size_find allowed_page_size_def option.case)
    from find_in_set [OF Some] have "psz \<noteq> - 1"
      by auto
    with v2 Some sel show ?thesis
      by (simp only: detect_param_unfold [OF assms] option.case) auto
  qed
next
  assume "name obj_hdr = [] \<and> alias' obj_hdr = []"
  then show "detect_param self content =
              Inr (self \<lparr> endianness := en, yaffs_version := 1,
                          page_size := 512, spare_size := 16 \<rparr>)"
    by (simp add: detect_param_unfold [OF assms])
next
  show "list_all (\<lambda>psz. test_page_size content psz
                      \<longleftrightarrow> (\<forall>i. yaffs_obj_hdr_size \<le> i \<and> i < nat psz \<and> i < length content
                               \<longrightarrow> content ! i = 0xFF))
            [16384, 8192, 4096, 2048, 512]"
    by (simp add: test_page_size_iff)
qed

theorem detect_param_geometry_witness:
  "yaffs_magic_header_unpack LITTLE_ENDIAN (take 10 image_twice_dir)
     = Inr \<lparr> magic_type = 3, magic_parent_obj_id = 1, always_0xFFFF = 0xFFFF \<rparr>
   \<and> detect_endianness \<lparr> magic_type = 3, magic_parent_obj_id = 1, always_0xFFFF = 0xFFFF \<rparr>
       = Inr LITTLE_ENDIAN
   \<and> get_ObjHdr LITTLE_ENDIAN (take 512 image_twice_dir) = Inr dir_d_record
   \<and> name dir_d_record \<noteq> []
   \<and> find (test_page_size image_twice_dir) [16384, 8192, 4096, 2048, 512] = Some 512
   \<and> detect_param init_unpacker image_twice_dir =
       Inr (init_unpacker \<lparr> endianness := LITTLE_ENDIAN, yaffs_version := 2,
                             page_size := 512, spare_size := 16 \<rparr>)
   \<and> yaffs_magic_header_unpack LITTLE_ENDIAN (take 10 image_bad_type)
       = Inr \<lparr> magic_type = 3, magic_parent_obj_id = 1, always_0xFFFF = 0xFFFF \<rparr>
   \<and> get_ObjHdr LITTLE_ENDIAN (take 512 image_bad_type) = Inr v1_first_record
   \<and> name v1_first_record = [] \<and> alias' v1_first_record = []
   \<and> detect_param init_unpacker image_bad_type =
       Inr (init_unpacker \<lparr> endianness := LITTLE_ENDIAN, yaffs_version := 1,
                             page_size := 512, spare_size := 16 \<rparr>)"
proof -
  have m: "yaffs_magic_header_unpack LITTLE_ENDIAN (take 10 image_twice_dir)
     = Inr \<lparr> magic_type = 3, magic_parent_obj_id = 1, always_0xFFFF = 0xFFFF \<rparr>"
    using dir_d_magic by (simp add: image_twice_dir_def page_lengths)
  have h: "get_ObjHdr LITTLE_ENDIAN (take 512 image_twice_dir) = Inr dir_d_record"
    using dir_d_decodes by (simp add: image_twice_dir_def page_lengths)
  have n: "name dir_d_record \<noteq> []"
    by (simp add: dir_d_record_def)
  have "name dir_d_record \<noteq> [] \<or> alias' dir_d_record \<noteq> [] \<longrightarrow>
          (case find (test_page_size image_twice_dir) [16384, 8192, 4096, 2048, 512] of
             None \<Rightarrow> detect_param init_unpacker image_twice_dir = Inl WrongPageSize
           | Some psz \<Rightarrow>
               detect_param init_unpacker image_twice_dir =
                 Inr (init_unpacker \<lparr> endianness := LITTLE_ENDIAN, yaffs_version := 2,
                                       page_size := nat psz, spare_size := nat psz div 32 \<rparr>))"
    using detect_param_geometry [OF m magic_3_little h, of init_unpacker] by (rule conjunct1)
  with n have d: "detect_param init_unpacker image_twice_dir =
       Inr (init_unpacker \<lparr> endianness := LITTLE_ENDIAN, yaffs_version := 2,
                             page_size := 512, spare_size := 16 \<rparr>)"
    unfolding twice_dir_probe by simp
  have m1: "yaffs_magic_header_unpack LITTLE_ENDIAN (take 10 image_bad_type)
     = Inr \<lparr> magic_type = 3, magic_parent_obj_id = 1, always_0xFFFF = 0xFFFF \<rparr>"
    using v1_first_magic by (simp add: image_bad_type_def page_lengths)
  have h1: "get_ObjHdr LITTLE_ENDIAN (take 512 image_bad_type) = Inr v1_first_record"
    using v1_first_decodes by (simp add: image_bad_type_def page_lengths)
  have n1: "name v1_first_record = []" and a1: "alias' v1_first_record = []"
    by (simp_all add: v1_first_record_def)
  have "name v1_first_record = [] \<and> alias' v1_first_record = [] \<longrightarrow>
            detect_param init_unpacker image_bad_type =
              Inr (init_unpacker \<lparr> endianness := LITTLE_ENDIAN, yaffs_version := 1,
                          page_size := 512, spare_size := 16 \<rparr>)"
    using detect_param_geometry [OF m1 magic_3_little h1, of init_unpacker]
    by (elim conjE)
  with n1 a1 have d1: "detect_param init_unpacker image_bad_type =
              Inr (init_unpacker \<lparr> endianness := LITTLE_ENDIAN, yaffs_version := 1,
                          page_size := 512, spare_size := 16 \<rparr>)"
    by simp
  show ?thesis
    by (intro conjI m magic_3_little h n twice_dir_probe d m1 h1 n1 a1 d1)
qed

text \<open>
  C10. On a stream that has no byte beyond the header structure (at most 512 bytes) the
  test passes vacuously for every page size, so the loop selects 16384, the first
  candidate: whenever the detection of such a stream ends in version 2, its page size is
  16384 and its spare size 512, whatever the length of the stream.
\<close>

theorem test_page_size_short_stream:
  assumes "length content < yaffs_obj_hdr_size + 1"
  shows "(\<forall>psz. test_page_size content psz)
       \<and> select_page_size content allowed_page_size = 16384
       \<and> (\<forall>u. detect_param self content = Inr u \<longrightarrow> yaffs_version u = 2
              \<longrightarrow> page_size u = 16384 \<and> spare_size u = 512)"
proof -
  have t: "\<forall>psz. test_page_size content psz"
    using assms by (simp add: test_page_size_def fin_read_def Let_def)
  then have s: "select_page_size content allowed_page_size = 16384"
    by (simp add: allowed_page_size_def)
  have "page_size u = 16384 \<and> spare_size u = 512"
    if "detect_param self content = Inr u" "yaffs_version u = 2" for u
    using that unfolding detect_param_def s
    by (auto simp: Let_def split: sum.splits if_splits)
  with t s show ?thesis
    by blast
qed

theorem test_page_size_short_stream_witness:
  "length dir_d_header < yaffs_obj_hdr_size + 1
   \<and> test_page_size dir_d_header 16384
   \<and> select_page_size dir_d_header allowed_page_size = 16384
   \<and> detect_param init_unpacker dir_d_header =
       Inr (init_unpacker \<lparr> endianness := LITTLE_ENDIAN, yaffs_version := 2,
                             page_size := 16384, spare_size := 512 \<rparr>)"
proof -
  have len: "length dir_d_header < yaffs_obj_hdr_size + 1"
    by (simp add: page_lengths yaffs_obj_hdr_size_def)
  note short = test_page_size_short_stream [OF len, of init_unpacker]
  have h: "get_ObjHdr LITTLE_ENDIAN (take 512 dir_d_header) = Inr dir_d_record"
    using dir_d_decodes by (simp add: page_lengths)
  have "detect_param init_unpacker dir_d_header =
       Inr (init_unpacker \<lparr> endianness := LITTLE_ENDIAN, yaffs_version := 2,
                             page_size := 16384, spare_size := 512 \<rparr>)"
    using short
    by (simp add: detect_param_unfold [OF dir_d_magic magic_3_little h] dir_d_record_def)
  with short len show ?thesis
    by blast
qed

subsection \<open>Path resolution\<close>

lemma unwind_returns_chain_ends:
  assumes "unwind_parent_name od obj_id = Some names"
  shows "parent_chain od (length names) obj_id = None"
proof (rule unwind_parent_name.raw_induct
    [where P = "\<lambda>od obj_id names. parent_chain od (length names) obj_id = None", OF _ assms])
  fix unwind :: "(int \<rightharpoonup> ObjHdr) \<Rightarrow> int \<Rightarrow> pystr list option" and od obj_id names
  assume IH: "\<And>od' i r. unwind od' i = Some r \<Longrightarrow> parent_chain od' (length r) i = None"
    and eq: "(case od obj_id of
                None \<Rightarrow> Some []
              | Some h \<Rightarrow> Option.bind (unwind od (parent_obj_id h)) (\<lambda>r. Some (name h # r)))
             = Some names"
  from eq IH show "parent_chain od (length names) obj_id = None"
    by (auto simp: bind_eq_Some_conv split: option.splits)
qed

lemma chain_ends_unwind_returns:
  "parent_chain od n obj_id = None \<Longrightarrow> \<exists>names. unwind_parent_name od obj_id = Some names"
proof (induction n arbitrary: obj_id)
  case 0
  then have "od obj_id = None"
    by (simp split: if_splits)
  then show ?case
    by (subst unwind_parent_name.simps) simp
next
  case (Suc n)
  show ?case
  proof (cases "od obj_id")
    case None
    then show ?thesis
      by (subst unwind_parent_name.simps) simp
  next
    case (Some h)
    with Suc.prems have "parent_chain od n (parent_obj_id h) = None"
      by simp
    from Suc.IH [OF this] obtain r where "unwind_parent_name od (parent_obj_id h) = Some r"
      by blast
    with Some show ?thesis
      by (subst unwind_parent_name.simps) simp
  qed
qed

lemma parent_chain_add:
  "parent_chain od (m + k) obj_id =
     (case parent_chain od m obj_id of None \<Rightarrow> None | Some j \<Rightarrow> parent_chain od k j)"
proof (induction m arbitrary: obj_id)
  case 0
  show ?case
    by (cases k) (auto split: option.splits)
next
  case (Suc m)
  then show ?case
    by (auto split: option.splits)
qed

lemma parent_chain_cycle_times:
  assumes "parent_chain od k j = Some j"
  shows "parent_chain od (q * k) j = Some j"
proof (induction q)
  case 0
  from assms have "od j \<noteq> None"
    by (cases k) (auto split: option.splits if_splits)
  then show ?case by simp
next
  case (Suc q)
  have "parent_chain od (k + q * k) j = Some j"
    by (simp only: parent_chain_add assms option.case Suc)
  then show ?case by simp
qed

lemma parent_chain_prefix:
  "parent_chain od (n + d) obj_id \<noteq> None \<Longrightarrow> parent_chain od n obj_id \<noteq> None"
  by (simp add: parent_chain_add split: option.splits)

lemma cycle_never_ends:
  assumes k: "0 < k" and m: "parent_chain od m obj_id = Some j" and c: "parent_chain od k j = Some j"
  shows "parent_chain od n obj_id \<noteq> None"
proof -
  have "parent_chain od (m + n * k) obj_id = Some j"
    by (simp only: parent_chain_add m option.case parent_chain_cycle_times [OF c])
  moreover from k have "n \<le> m + n * k"
    by (cases k) simp_all
  then obtain d where "m + n * k = n + d"
    using le_Suc_ex by blast
  ultimately have "parent_chain od (n + d) obj_id \<noteq> None"
    by simp
  then show ?thesis
    by (rule parent_chain_prefix)
qed

text \<open>
  C4 (as the code has it). The walk to the parents has no bound and no error of its
  own: it returns exactly when the parent chain leaves the registry after finitely many
  steps. When the chain from an id runs into a cycle of registered ids, path resolution
  from that id never returns.
\<close>

theorem unwind_parent_name_cycle:
  "(unwind_parent_name od obj_id = None \<longleftrightarrow> (\<forall>n. parent_chain od n obj_id \<noteq> None))
   \<and> (0 < k \<and> parent_chain od m obj_id = Some j \<and> parent_chain od k j = Some j
        \<longrightarrow> unwind_parent_name od obj_id = None)"
proof -
  have iff: "unwind_parent_name od obj_id = None \<longleftrightarrow> (\<forall>n. parent_chain od n obj_id \<noteq> None)"
  proof
    assume none: "unwind_parent_name od obj_id = None"
    show "\<forall>n. parent_chain od n obj_id \<noteq> None"
    proof
      fix n
      show "parent_chain od n obj_id \<noteq> None"
        using chain_ends_unwind_returns [of od n obj_id] none by auto
    qed
  next
    assume all: "\<forall>n. parent_chain od n obj_id \<noteq> None"
    show "unwind_parent_name od obj_id = None"
    proof (cases "unwind_parent_name od obj_id")
      case None
      then show ?thesis .
    next
      case (Some names)
      from unwind_returns_chain_ends [OF this] all show ?thesis
        by blast
    qed
  qed
  moreover have "unwind_parent_name od obj_id = None"
    if "0 < k" "parent_chain od m obj_id = Some j" "parent_chain od k j = Some j"
    using cycle_never_ends [OF that] iff by blast
  ultimately show ?thesis
    by blast
qed

lemma self_parent_cycle: "parent_chain self_parent_registry 1 257 = Some 257"
  by (simp add: self_parent_registry_def)

theorem unwind_parent_name_cycle_witness:
  "(0::nat) < 1
   \<and> parent_chain self_parent_registry 0 257 = Some 257
   \<and> parent_chain self_parent_registry 1 257 = Some 257
   \<and> unwind_parent_name self_parent_registry 257 = None"
  using unwind_parent_name_cycle [of self_parent_registry 257 1 0 257] self_parent_cycle
  by (simp add: self_parent_registry_def)


subsection \<open>A type outside the enumeration\<close>

lemma v1_unpacker_fields:
  "page_size v1_unpacker = 512" "spare_size v1_unpacker = 16"
  "endianness v1_unpacker = LITTLE_ENDIAN" "yaffs_version v1_unpacker = 1"
  "objdict v1_unpacker = Map.empty"
  by (simp_all add: v1_unpacker_def init_unpacker_def)

lemma bad_type_geometry: "detect_param init_unpacker image_bad_type = Inr v1_unpacker"
proof -
  have m: "yaffs_magic_header_unpack LITTLE_ENDIAN (take 10 image_bad_type)
     = Inr \<lparr> magic_type = 3, magic_parent_obj_id = 1, always_0xFFFF = 0xFFFF \<rparr>"
    using v1_first_magic by (simp add: image_bad_type_def page_lengths)
  have h: "get_ObjHdr LITTLE_ENDIAN (take 512 image_bad_type) = Inr v1_first_record"
    using v1_first_decodes by (simp add: image_bad_type_def page_lengths)
  show ?thesis
    by (simp add: detect_param_unfold [OF m magic_3_little h] v1_first_record_def v1_unpacker_def)
qed

lemma bad_type_raises: "get_ObjHdr LITTLE_ENDIAN bad_type_header = Inl (ValueError 7)"
  by code_simp

lemma bad_type_page:
  "fst (fin_read image_bad_type 528 512) = bad_type_header"
  by (simp add: fin_read_def image_bad_type_def page_lengths)

lemma erased_page_value: "field_sint LITTLE_ENDIAN erased_page 0 4 = - 1"
  by code_simp

lemma erased_page_read:
  "fst (fin_read image_erased 528 512) = erased_page"
  by (simp add: fin_read_def image_erased_def page_lengths erased_page_def)

lemma type_out_of_range_raises:
  assumes "4 \<le> length data" and "field_sint e data 0 4 \<notin> {0..5}"
  shows "get_ObjHdr e (take yaffs_obj_hdr_size data) = Inl (ValueError (field_sint e data 0 4))"
proof -
  have f: "field_sint e (take yaffs_obj_hdr_size data) 0 4 = field_sint e data 0 4"
    by (simp add: field_sint_def field_uint_def yaffs_obj_hdr_size_def take_take)
  have "unpack_from_signed e (take yaffs_obj_hdr_size data) 0 4 = Inr (field_sint e data 0 4)"
    using assms(1) by (simp add: unpack_from_signed_def f) (simp add: yaffs_obj_hdr_size_def)
  moreover have "yaffs_obj_type_of (field_sint e data 0 4) = Inl (ValueError (field_sint e data 0 4))"
    using assms(2) by (auto simp: yaffs_obj_type_of_def)
  ultimately show ?thesis
    by (simp add: get_ObjHdr_def yaffs_obj_hdr_unpack_def)
qed

text \<open>
  C7 (as the code has it). When the type value of the page read in a round of the scan
  loop, its first four bytes read as a signed integer, is none of 0..5, decoding the
  header raises \<open>ValueError\<close> with that value, which the scan catches as it catches a
  short read: the round breaks the loop and the run returns normally, with the registry
  and the tree as they were before the round.
\<close>

theorem unpack_loop_type_out_of_range:
  assumes "4 \<le> length (fst (fin_read content pos (int (page_size self))))"
    and "field_sint (endianness self) (fst (fin_read content pos (int (page_size self)))) 0 4
           \<notin> {0..5}"
  shows "get_ObjHdr (endianness self)
           (take yaffs_obj_hdr_size (fst (fin_read content pos (int (page_size self)))))
         = Inl (ValueError
             (field_sint (endianness self) (fst (fin_read content pos (int (page_size self)))) 0 4))
       \<and> unpack_step content self pos obj_id fs = Some Break
       \<and> unpack_loop content self pos obj_id fs = Some (Inr (self, fs))"
proof -
  note r = type_out_of_range_raises [OF assms]
  then have s: "unpack_step content self pos obj_id fs = Some Break"
    by (simp add: unpack_step_def)
  then have "unpack_loop content self pos obj_id fs = Some (Inr (self, fs))"
    by (subst unpack_loop.simps) simp
  with r s show ?thesis
    by blast
qed

lemma bad_type_value: "field_sint LITTLE_ENDIAN bad_type_header 0 4 = 7"
  by code_simp

theorem unpack_loop_type_out_of_range_witness:
  "4 \<le> length (fst (fin_read image_bad_type 528 (int (page_size v1_unpacker))))
   \<and> field_sint (endianness v1_unpacker)
        (fst (fin_read image_bad_type 528 (int (page_size v1_unpacker)))) 0 4 = 7
   \<and> (7::int) \<notin> {0..5}
   \<and> unpack_step image_bad_type v1_unpacker 528 257 empty_tree = Some Break
   \<and> unpack_loop image_bad_type v1_unpacker 528 257 empty_tree
       = Some (Inr (v1_unpacker, empty_tree))
   \<and> 4 \<le> length (fst (fin_read image_erased 528 (int (page_size v1_unpacker))))
   \<and> field_sint (endianness v1_unpacker)
        (fst (fin_read image_erased 528 (int (page_size v1_unpacker)))) 0 4 = - 1
   \<and> (- 1::int) \<notin> {0..5}
   \<and> get_ObjHdr (endianness v1_unpacker)
        (take yaffs_obj_hdr_size (fst (fin_read image_erased 528 (int (page_size v1_unpacker)))))
       = Inl (ValueError (- 1))
   \<and> unpack_loop image_erased v1_unpacker 528 257 empty_tree
       = Some (Inr (v1_unpacker, empty_tree))"
proof -
  have l: "4 \<le> length (fst (fin_read image_bad_type 528 (int (page_size v1_unpacker))))"
    by (simp add: v1_unpacker_fields bad_type_page page_lengths)
  have v: "field_sint (endianness v1_unpacker)
        (fst (fin_read image_bad_type 528 (int (page_size v1_unpacker)))) 0 4 = 7"
    by (simp add: v1_unpacker_fields bad_type_page bad_type_value)
  have n: "field_sint (endianness v1_unpacker)
        (fst (fin_read image_bad_type 528 (int (page_size v1_unpacker)))) 0 4 \<notin> {0..5}"
    by (simp add: v)
  have l': "4 \<le> length (fst (fin_read image_erased 528 (int (page_size v1_unpacker))))"
    by (simp add: v1_unpacker_fields erased_page_read erased_page_def)
  have v': "field_sint (endianness v1_unpacker)
        (fst (fin_read image_erased 528 (int (page_size v1_unpacker)))) 0 4 = - 1"
    by (simp add: v1_unpacker_fields erased_page_read erased_page_value)
  have n': "field_sint (endianness v1_unpacker)
        (fst (fin_read image_erased 528 (int (page_size v1_unpacker)))) 0 4 \<notin> {0..5}"
    by (simp add: v')
  from unpack_loop_type_out_of_range [OF l n, of 257 empty_tree]
    unpack_loop_type_out_of_range [OF l' n', of 257 empty_tree] l v l' v'
  show ?thesis
    by simp
qed

text \<open>
  The claim as stated fails: the second unit of this image has the type 7, and the run
  ends normally instead of raising \<open>WrongYaffsObjType\<close>; the directory that follows the
  unit is never created.
\<close>

theorem unpack_bad_type_counterexample:
  "field_sint LITTLE_ENDIAN (fst (fin_read image_bad_type 528 512)) 0 4 = 7
   \<and> unpack image_bad_type empty_tree = Some (Inr (v1_unpacker, empty_tree))"
proof -
  have "unpack_step image_bad_type v1_unpacker 528 257 empty_tree = Some Break"
    by (simp add: unpack_step_def bad_type_page yaffs_obj_hdr_size_def page_lengths
          v1_unpacker_fields bad_type_raises)
  then have "unpack_loop image_bad_type v1_unpacker 528 257 empty_tree
             = Some (Inr (v1_unpacker, empty_tree))"
    by (subst unpack_loop.simps) simp
  then have "unpack image_bad_type empty_tree = Some (Inr (v1_unpacker, empty_tree))"
    by (simp add: unpack_def bad_type_geometry v1_unpacker_fields)
  then show ?thesis
    by (simp add: bad_type_page bad_type_value)
qed

subsection \<open>A directory that exists already\<close>

lemma unwind_parent_name_top:
  "od obj_id = Some h \<Longrightarrow> od (parent_obj_id h) = None
   \<Longrightarrow> unwind_parent_name od obj_id = Some [name h]"
  by (subst unwind_parent_name.simps, simp, subst unwind_parent_name.simps, simp)

lemma v2_unpacker_fields:
  "page_size v2_unpacker = 512" "spare_size v2_unpacker = 16"
  "endianness v2_unpacker = LITTLE_ENDIAN" "yaffs_version v2_unpacker = 2"
  "objdict v2_unpacker = Map.empty"
  by (simp_all add: v2_unpacker_def init_unpacker_def)

lemma twice_dir_geometry: "detect_param init_unpacker image_twice_dir = Inr v2_unpacker"
proof -
  have m: "yaffs_magic_header_unpack LITTLE_ENDIAN (take 10 image_twice_dir)
     = Inr \<lparr> magic_type = 3, magic_parent_obj_id = 1, always_0xFFFF = 0xFFFF \<rparr>"
    using dir_d_magic by (simp add: image_twice_dir_def page_lengths)
  have h: "get_ObjHdr LITTLE_ENDIAN (take 512 image_twice_dir) = Inr dir_d_record"
    using dir_d_decodes by (simp add: image_twice_dir_def page_lengths)
  have s: "select_page_size image_twice_dir allowed_page_size = 512"
    using twice_dir_probe by (simp add: select_page_size_find allowed_page_size_def)
  show ?thesis
    by (simp add: detect_param_unfold [OF m magic_3_little h] s dir_d_record_def v2_unpacker_def)
qed

text \<open>
  C8 (as the code has it). A Directory record whose resolved path exists already as a
  directory is not tolerated: when a round of the scan decodes such a record,
  \<^verbatim>\<open>os.mkdir\<close> raises \<open>FileExistsError\<close>, the materialisation fails with it, and
  the run aborts with that error.
\<close>

theorem unpack_existing_directory:
  assumes "get_ObjHdr (endianness self)
             (take yaffs_obj_hdr_size (fst (fin_read content pos (int (page_size self)))))
           = Inr obj_hdr"
    and "type obj_hdr = YAFFS_OBJECT_TYPE_DIRECTORY"
    and "unwind_parent_name ((objdict self)(obj_id \<mapsto> obj_hdr)) obj_id = Some names"
    and "nodes fs (obj_path_of names) = Some Dir"
  shows "os_mkdir fs (obj_path_of names) = Inl FileExistsError
       \<and> materialize content (self \<lparr> objdict := (objdict self)(obj_id \<mapsto> obj_hdr) \<rparr>) obj_hdr
             (obj_path_of names) p fs = Inl FileExistsError
       \<and> unpack_step content self pos obj_id fs = Some (Raise FileExistsError)
       \<and> unpack_loop content self pos obj_id fs = Some (Inl FileExistsError)"
proof -
  have k: "os_mkdir fs (obj_path_of names) = Inl FileExistsError"
    using assms(4) by (simp add: os_mkdir_def)
  then have m: "materialize content self' obj_hdr (obj_path_of names) p' fs = Inl FileExistsError"
    for self' p'
    using assms(2) by (simp add: materialize_def)
  have s: "unpack_step content self pos obj_id fs = Some (Raise FileExistsError)"
    using assms(1,3) by (simp add: unpack_step_def Let_def m)
  then have "unpack_loop content self pos obj_id fs = Some (Inl FileExistsError)"
    by (subst unpack_loop.simps) simp
  with k m s show ?thesis
    by blast
qed

theorem unpack_existing_directory_witness:
  "get_ObjHdr (endianness (v2_unpacker \<lparr> objdict := [257 \<mapsto> dir_d_record] \<rparr>))
     (take yaffs_obj_hdr_size
        (fst (fin_read image_twice_dir 528
           (int (page_size (v2_unpacker \<lparr> objdict := [257 \<mapsto> dir_d_record] \<rparr>))))))
     = Inr dir_d_record
   \<and> type dir_d_record = YAFFS_OBJECT_TYPE_DIRECTORY
   \<and> unwind_parent_name [257 \<mapsto> dir_d_record, 258 \<mapsto> dir_d_record] 258 = Some [[100]]
   \<and> nodes tree_with_d (obj_path_of [[100]]) = Some Dir
   \<and> unpack_step image_twice_dir (v2_unpacker \<lparr> objdict := [257 \<mapsto> dir_d_record] \<rparr>) 528 258
         tree_with_d = Some (Raise FileExistsError)
   \<and> unpack_loop image_twice_dir (v2_unpacker \<lparr> objdict := [257 \<mapsto> dir_d_record] \<rparr>) 528 258
         tree_with_d = Some (Inl FileExistsError)"
proof -
  let ?u = "v2_unpacker \<lparr> objdict := [257 \<mapsto> dir_d_record] \<rparr>"
  have h: "get_ObjHdr (endianness ?u)
     (take yaffs_obj_hdr_size (fst (fin_read image_twice_dir 528 (int (page_size ?u)))))
     = Inr dir_d_record"
    by (simp add: v2_unpacker_fields fin_read_def image_twice_dir_def page_lengths
          yaffs_obj_hdr_size_def dir_d_decodes)
  have t: "type dir_d_record = YAFFS_OBJECT_TYPE_DIRECTORY"
    by (simp add: dir_d_record_def)
  have u: "unwind_parent_name ((objdict ?u)(258 \<mapsto> dir_d_record)) 258 = Some [[100]]"
    using unwind_parent_name_top [of "[257 \<mapsto> dir_d_record, 258 \<mapsto> dir_d_record]" 258 dir_d_record]
    by (simp add: dir_d_record_def)
  have n: "nodes tree_with_d (obj_path_of [[100]]) = Some Dir"
    by (simp add: tree_with_d_def obj_path_of_def)
  from unpack_existing_directory [OF h t u n] h t u n show ?thesis
    by simp
qed

lemma twice_dir_first_round:
  "unpack_step image_twice_dir v2_unpacker 0 257 empty_tree
   = Some (Next (v2_unpacker \<lparr> objdict := [257 \<mapsto> dir_d_record] \<rparr>) 528 tree_with_d)"
proof -
  have p: "fst (fin_read image_twice_dir 0 512) = dir_d_header"
    "snd (fin_read image_twice_dir 0 512) = 512"
    "snd (fin_read image_twice_dir 512 16) = 528"
    by (simp_all add: fin_read_def image_twice_dir_def page_lengths)
  have u: "unwind_parent_name [257 \<mapsto> dir_d_record] 257 = Some [[100]]"
    using unwind_parent_name_top [of "[257 \<mapsto> dir_d_record]" 257 dir_d_record]
    by (simp add: dir_d_record_def)
  have m: "materialize image_twice_dir (v2_unpacker \<lparr> objdict := [257 \<mapsto> dir_d_record] \<rparr>)
             dir_d_record [[100]] 528 empty_tree = Inr (528, tree_with_d)"
    by (simp add: materialize_def os_mkdir_def parent_error_def os_utime_def empty_tree_def
          tree_with_d_def dir_d_record_def)
  show ?thesis
    by (simp add: unpack_step_def v2_unpacker_fields p yaffs_obj_hdr_size_def page_lengths
          dir_d_decodes u obj_path_of_def m)
qed

lemma twice_dir_second_round:
  "unpack_step image_twice_dir (v2_unpacker \<lparr> objdict := [257 \<mapsto> dir_d_record] \<rparr>) 528 258
     tree_with_d
   = Some (Raise FileExistsError)"
proof -
  have p: "fst (fin_read image_twice_dir 528 512) = dir_d_header"
    "snd (fin_read image_twice_dir 528 512) = 1040"
    "snd (fin_read image_twice_dir 1040 16) = 1056"
    by (simp_all add: fin_read_def image_twice_dir_def page_lengths)
  have u: "unwind_parent_name [257 \<mapsto> dir_d_record, 258 \<mapsto> dir_d_record] 258 = Some [[100]]"
    using unwind_parent_name_top [of "[257 \<mapsto> dir_d_record, 258 \<mapsto> dir_d_record]" 258 dir_d_record]
    by (simp add: dir_d_record_def)
  have t: "type dir_d_record = YAFFS_OBJECT_TYPE_DIRECTORY"
    by (simp add: dir_d_record_def)
  have n: "nodes tree_with_d [[100]] = Some Dir"
    by (simp add: tree_with_d_def)
  have m: "materialize image_twice_dir
             (v2_unpacker \<lparr> objdict := [257 \<mapsto> dir_d_record, 258 \<mapsto> dir_d_record] \<rparr>)
             dir_d_record [[100]] 1056 tree_with_d = Inl FileExistsError"
    using t n by (simp add: materialize_def os_mkdir_def)
  show ?thesis
    by (simp add: unpack_step_def v2_unpacker_fields p yaffs_obj_hdr_size_def page_lengths
          dir_d_decodes u obj_path_of_def m)
qed

text \<open>
  The claim as stated fails: this image holds the directory \<^verbatim>\<open>d\<close> twice. The first
  record creates it; at the second its path exists as a directory, and the run aborts
  with \<open>FileExistsError\<close>.
\<close>

theorem unpack_twice_dir_counterexample:
  "unpack_step image_twice_dir v2_unpacker 0 257 empty_tree
     = Some (Next (v2_unpacker \<lparr> objdict := [257 \<mapsto> dir_d_record] \<rparr>) 528 tree_with_d)
   \<and> nodes tree_with_d [[100]] = Some Dir
   \<and> unpack image_twice_dir empty_tree = Some (Inl FileExistsError)"
proof -
  have "unpack_loop image_twice_dir (v2_unpacker \<lparr> objdict := [257 \<mapsto> dir_d_record] \<rparr>) 528
          (257 + 1) tree_with_d = Some (Inl FileExistsError)"
    by (subst unpack_loop.simps) (simp add: twice_dir_second_round)
  then have "unpack_loop image_twice_dir v2_unpacker 0 257 empty_tree = Some (Inl FileExistsError)"
    by (subst unpack_loop.simps) (simp add: twice_dir_first_round)
  then have "unpack image_twice_dir empty_tree = Some (Inl FileExistsError)"
    by (simp add: unpack_def twice_dir_geometry v2_unpacker_fields)
  then show ?thesis
    by (simp add: twice_dir_first_round tree_with_d_def)
qed

subsection \<open>A run that never returns\<close>

lemma self_parent_diverges: "unwind_parent_name self_parent_registry 257 = None"
proof (cases "unwind_parent_name self_parent_registry 257")
  case None
  then show ?thesis .
next
  case (Some names)
  have "parent_chain self_parent_registry 0 257 = Some 257"
    by (simp add: self_parent_registry_def)
  from cycle_never_ends [OF _ this self_parent_cycle, of "length names"]
    unwind_returns_chain_ends [OF Some]
  show ?thesis
    by simp
qed

lemma self_parent_decodes:
  "get_ObjHdr LITTLE_ENDIAN self_parent_header = Inr (dir_d_record \<lparr> parent_obj_id := 257 \<rparr>)"
  unfolding dir_d_record_def by code_simp

lemma self_parent_magic:
  "yaffs_magic_header_unpack LITTLE_ENDIAN (take 10 self_parent_header)
   = Inr \<lparr> magic_type = 3, magic_parent_obj_id = 257, always_0xFFFF = 0xFFFF \<rparr>"
  by code_simp

lemma self_parent_length: "length self_parent_header = 512"
  by (simp add: self_parent_header_def header_page_def)

lemma self_parent_geometry:
  "detect_param init_unpacker image_self_parent
   = Inr (init_unpacker \<lparr> endianness := LITTLE_ENDIAN, yaffs_version := 2,
                           page_size := 16384, spare_size := 512 \<rparr>)"
proof -
  have m: "yaffs_magic_header_unpack LITTLE_ENDIAN (take 10 image_self_parent)
     = Inr \<lparr> magic_type = 3, magic_parent_obj_id = 257, always_0xFFFF = 0xFFFF \<rparr>"
    using self_parent_magic by (simp add: image_self_parent_def self_parent_length)
  have e: "detect_endianness \<lparr> magic_type = 3, magic_parent_obj_id = 257, always_0xFFFF = 0xFFFF \<rparr>
           = Inr LITTLE_ENDIAN"
    by (simp add: detect_endianness_def)
  have h: "get_ObjHdr LITTLE_ENDIAN (take 512 image_self_parent)
           = Inr (dir_d_record \<lparr> parent_obj_id := 257 \<rparr>)"
    using self_parent_decodes by (simp add: image_self_parent_def self_parent_length)
  have s: "select_page_size image_self_parent allowed_page_size = 16384"
    by (simp add: allowed_page_size_def test_page_size_def fin_read_def image_self_parent_def
          self_parent_length yaffs_obj_hdr_size_def spare16_def list_all_iff)
  show ?thesis
    by (simp add: detect_param_unfold [OF m e h] s dir_d_record_def)
qed

text \<open>
  The claim as stated fails: object 257 of this image names itself as its parent. The
  chain from 257 is a cycle, the walk to the parents never ends, and neither it nor the
  run returns; no error is raised.
\<close>

theorem unwind_parent_name_cycle_counterexample:
  "parent_chain self_parent_registry 1 257 = Some 257
   \<and> unwind_parent_name self_parent_registry 257 = None
   \<and> unpack image_self_parent empty_tree = None"
proof -
  let ?u = "init_unpacker \<lparr> endianness := LITTLE_ENDIAN, yaffs_version := 2,
                             page_size := 16384, spare_size := 512 \<rparr>"
  have p: "fst (fin_read image_self_parent 0 16384) = image_self_parent"
    by (simp add: fin_read_def image_self_parent_def self_parent_length spare16_def)
  have t: "take 512 image_self_parent = self_parent_header"
    by (simp add: image_self_parent_def self_parent_length)
  have "unpack_step image_self_parent ?u 0 257 empty_tree = None"
    using self_parent_diverges
    by (simp add: unpack_step_def p t yaffs_obj_hdr_size_def self_parent_decodes
          init_unpacker_def self_parent_registry_def)
  then have "unpack_loop image_self_parent ?u 0 257 empty_tree = None"
    by (subst unpack_loop.simps) simp
  then have "unpack image_self_parent empty_tree = None"
    by (simp add: unpack_def self_parent_geometry)
  with self_parent_cycle self_parent_diverges show ?thesis
    by blast
qed

subsection \<open>A file whose size is a multiple of the page size\<close>

lemma fin_read_full:
  "pos + n \<le> length content \<Longrightarrow>
   fin_read content pos (int n) = (take n (drop pos content), pos + n)"
  by (simp add: fin_read_def Let_def)

lemma write_pages_append:
  "write_pages content self fsize num_pages (xs @ ys) pos out =
     write_pages content self fsize num_pages ys
       (fst (write_pages content self fsize num_pages xs pos out))
       (snd (write_pages content self fsize num_pages xs pos out))"
  by (induction xs arbitrary: pos out) (simp_all add: Let_def)

lemma write_pages_full_pages:
  assumes "\<forall>i \<in> set is. i < num_pages - 1"
    and "pos + length is * (page_size self + spare_size self) \<le> length content"
  shows "fst (write_pages content self fsize num_pages is pos out)
           = pos + length is * (page_size self + spare_size self)
       \<and> length (snd (write_pages content self fsize num_pages is pos out))
           = length out + length is * page_size self"
  using assms
proof (induction "is" arbitrary: pos out)
  case Nil
  then show ?case by simp
next
  case (Cons i rest)
  let ?ps = "page_size self" and ?sp = "spare_size self"
  from Cons.prems(2) have here: "pos + ?ps \<le> length content"
    by simp
  from Cons.prems(2) have rest: "(pos + ?ps + ?sp) + length rest * (?ps + ?sp) \<le> length content"
    by (simp add: algebra_simps)
  from Cons.prems(1) have i: "i < num_pages - 1" and all: "\<forall>i \<in> set rest. i < num_pages - 1"
    by simp_all
  have len: "length (take ?ps (drop pos content)) = ?ps"
    using here by simp
  from Cons.IH [OF all rest, of "out @ take ?ps (drop pos content)"] i len show ?case
    by (simp add: fin_read_full [OF here] fin_seek_cur_def algebra_simps)
qed

lemma write_pages_last_page:
  assumes "pos + page_size self \<le> length content" and "0 < page_size self"
  shows "fst (write_pages content self fsize num_pages [num_pages - 1] pos out)
           = pos + page_size self + spare_size self
       \<and> int (length (snd (write_pages content self fsize num_pages [num_pages - 1] pos out)))
           = int (length out) + fsize mod int (page_size self)"
proof -
  let ?ps = "page_size self"
  have r: "0 \<le> fsize mod int ?ps" "fsize mod int ?ps < int ?ps"
    using assms(2) by simp_all
  have "length (take ?ps (drop pos content)) = ?ps"
    using assms(1) by simp
  with r show ?thesis
    by (simp add: fin_read_full [OF assms(1)] fin_seek_cur_def py_prefix_def)
qed
lemma num_pages_cases:
  fixes fsize ps :: int
  assumes "0 < ps" and "0 \<le> fsize"
  shows "(fsize + ps - 1) div ps = (if fsize mod ps = 0 then fsize div ps else fsize div ps + 1)"
proof -
  have r: "0 \<le> fsize mod ps" "fsize mod ps < ps"
    using assms(1) by simp_all
  have e: "fsize + ps - 1 = (fsize mod ps + ps - 1) + (fsize div ps) * ps"
    by (simp add: algebra_simps)
  have "((fsize mod ps + ps - 1) + (fsize div ps) * ps) div ps
          = fsize div ps + (fsize mod ps + ps - 1) div ps"
    using assms(1) by (subst div_mult_self1) simp_all
  then have d: "(fsize + ps - 1) div ps = fsize div ps + (fsize mod ps + ps - 1) div ps"
    by (simp only: e [symmetric])
  show ?thesis
  proof (cases "fsize mod ps = 0")
    case True
    then have "(fsize mod ps + ps - 1) div ps = 0"
      using assms(1) by (simp add: div_pos_pos_trivial)
    with d True show ?thesis by simp
  next
    case False
    with r have "0 \<le> fsize mod ps - 1" "fsize mod ps - 1 < ps"
      by simp_all
    then have "(fsize mod ps - 1) div ps = 0"
      by (simp add: div_pos_pos_trivial)
    moreover have e1: "fsize mod ps + ps - 1 = (fsize mod ps - 1) + 1 * ps"
      by simp
    have "((fsize mod ps - 1) + 1 * ps) div ps = 1 + (fsize mod ps - 1) div ps"
      using assms(1) by (subst div_mult_self1) simp_all
    then have "(fsize mod ps + ps - 1) div ps = 1 + (fsize mod ps - 1) div ps"
      by (simp only: e1 [symmetric])
    ultimately show ?thesis
      using d False by simp
  qed
qed

text \<open>
  The write loop on a stream that holds all the pages of a file of positive size: it pulls
  \<open>num_pages\<close> pages, each followed by its spare skip, and writes \<open>file_size\<close> bytes
  when \<open>file_size\<close> is no multiple of the page size, and one page less than
  \<open>file_size\<close> when it is.
\<close>

lemma write_pages_length:
  assumes ps: "0 < page_size self" and fs: "0 < fsize"
    and n: "num_pages = (fsize + int (page_size self) - 1) div int (page_size self)"
    and enough: "pos + nat num_pages * (page_size self + spare_size self)
                   \<le> length content + spare_size self"
  shows "fst (write_pages content self fsize num_pages [0 .. num_pages - 1] pos [])
           = pos + nat num_pages * (page_size self + spare_size self)
       \<and> int (length (snd (write_pages content self fsize num_pages [0 .. num_pages - 1] pos [])))
           = (if fsize mod int (page_size self) = 0 then fsize - int (page_size self) else fsize)"
proof -
  let ?ps = "page_size self" and ?sp = "spare_size self"
  let ?q = "fsize div int ?ps" and ?r = "fsize mod int ?ps"
  have cases: "num_pages = (if ?r = 0 then ?q else ?q + 1)"
    using num_pages_cases [of "int ?ps" fsize] ps fs n by simp
  have fsize: "fsize = ?q * int ?ps + ?r"
    by simp
  have q0: "0 \<le> ?q"
    using ps fs by (simp add: pos_imp_zdiv_nonneg_iff)
  have n1: "1 \<le> num_pages"
  proof (cases "?r = 0")
    case True
    with fsize have "fsize = ?q * int ?ps" by simp
    with fs q0 have "?q \<noteq> 0" by auto
    with q0 cases True show ?thesis by simp
  next
    case False
    with q0 cases show ?thesis by simp
  qed
  define k where "k = nat (num_pages - 1)"
  have k: "nat num_pages = Suc k" "int k = num_pages - 1"
    using n1 by (simp_all add: k_def)
  have split: "[0 .. num_pages - 1] = [0 .. num_pages - 2] @ [num_pages - 1]"
    using upto_rec2 [of 0 "num_pages - 1"] n1 by simp
  have len: "length [0 .. num_pages - 2] = k"
    using n1 by (simp add: k_def)
  have all: "\<forall>i \<in> set [0 .. num_pages - 2]. i < num_pages - 1"
    by auto
  from enough have room: "pos + k * (?ps + ?sp) + ?ps \<le> length content"
    by (simp add: k)
  have room1: "pos + length [0 .. num_pages - 2] * (?ps + ?sp) \<le> length content"
    unfolding len using room by simp
  have full: "fst (write_pages content self fsize num_pages [0 .. num_pages - 2] pos [])
                = pos + k * (?ps + ?sp)"
    "length (snd (write_pages content self fsize num_pages [0 .. num_pages - 2] pos [])) = k * ?ps"
    using write_pages_full_pages [OF all room1, of fsize "[]"] unfolding len by simp_all
  note last = write_pages_last_page [OF room ps, of fsize num_pages
      "snd (write_pages content self fsize num_pages [0 .. num_pages - 2] pos [])"]
  have pos': "fst (write_pages content self fsize num_pages [0 .. num_pages - 1] pos [])
                = pos + nat num_pages * (?ps + ?sp)"
    unfolding split write_pages_append full using last by (simp add: k(1))
  have "int (length (snd (write_pages content self fsize num_pages [0 .. num_pages - 1] pos [])))
          = int (k * ?ps) + ?r"
    unfolding split write_pages_append full(1) using last by (simp add: full(2))
  also have "\<dots> = (num_pages - 1) * int ?ps + ?r"
    by (simp add: k)
  also have "\<dots> = (if ?r = 0 then fsize - int ?ps else fsize)"
  proof (cases "?r = 0")
    case True
    with cases have "num_pages = ?q" by simp
    with True fsize show ?thesis
      by (simp add: algebra_simps)
  next
    case False
    with cases have "num_pages - 1 = ?q" by simp
    with False fsize show ?thesis
      by simp
  qed
  finally show ?thesis
    using pos' by simp
qed

lemma file_f_decodes: "get_ObjHdr LITTLE_ENDIAN file_f_header = Inr file_f_record"
  by code_simp

lemma full_page_geometry: "detect_param init_unpacker image_full_page_file = Inr v1_unpacker"
proof -
  have m: "yaffs_magic_header_unpack LITTLE_ENDIAN (take 10 image_full_page_file)
     = Inr \<lparr> magic_type = 3, magic_parent_obj_id = 1, always_0xFFFF = 0xFFFF \<rparr>"
    using v1_first_magic by (simp add: image_full_page_file_def page_lengths)
  have h: "get_ObjHdr LITTLE_ENDIAN (take 512 image_full_page_file) = Inr v1_first_record"
    using v1_first_decodes by (simp add: image_full_page_file_def page_lengths)
  show ?thesis
    by (simp add: detect_param_unfold [OF m magic_3_little h] v1_first_record_def v1_unpacker_def)
qed

lemma full_page_content_read:
  "fst (fin_read image_full_page_file 1056 512) = replicate 512 0x41"
  "snd (fin_read image_full_page_file 1056 512) = 1568"
  by (simp_all add: fin_read_def image_full_page_file_def page_lengths)

lemma full_page_first_round:
  "unpack_step image_full_page_file v1_unpacker 528 257 empty_tree
   = Some (Next (v1_unpacker \<lparr> objdict := [257 \<mapsto> file_f_record] \<rparr>) 1584 tree_with_empty_f)"
proof -
  have p: "fst (fin_read image_full_page_file 528 512) = file_f_header"
    "snd (fin_read image_full_page_file 528 512) = 1040"
    "snd (fin_read image_full_page_file 1040 16) = 1056"
    by (simp_all add: fin_read_def image_full_page_file_def page_lengths)
  have u: "unwind_parent_name [257 \<mapsto> file_f_record] 257 = Some [[102]]"
    using unwind_parent_name_top [of "[257 \<mapsto> file_f_record]" 257 file_f_record]
    by (simp add: file_f_record_def)
  have f: "type file_f_record = YAFFS_OBJECT_TYPE_FILE" "file_size file_f_record = 512"
    "atime file_f_record = 0" "mtime file_f_record = 0"
    by (simp_all add: file_f_record_def)
  have m: "materialize image_full_page_file (v1_unpacker \<lparr> objdict := [257 \<mapsto> file_f_record] \<rparr>)
             file_f_record [[102]] 1056 empty_tree = Inr (1584, tree_with_empty_f)"
    by (simp add: materialize_def f v1_unpacker_fields full_page_content_read py_prefix_def
          fin_seek_cur_def open_wb_def parent_error_def fout_close_def os_utime_def
          empty_tree_def tree_with_empty_f_def)
  show ?thesis
    by (simp add: unpack_step_def v1_unpacker_fields p yaffs_obj_hdr_size_def page_lengths
          file_f_decodes u obj_path_of_def m)
qed

lemma full_page_second_round:
  "unpack_step image_full_page_file (v1_unpacker \<lparr> objdict := [257 \<mapsto> file_f_record] \<rparr>)
     1584 258 tree_with_empty_f
   = Some Break"
proof -
  have "fst (fin_read image_full_page_file 1584 512) = []"
    by (simp add: fin_read_def image_full_page_file_def page_lengths)
  moreover have "get_ObjHdr LITTLE_ENDIAN [] = Inl StructError"
    by (simp add: get_ObjHdr_def yaffs_obj_hdr_unpack_def unpack_from_signed_def)
  ultimately show ?thesis
    by (simp add: unpack_step_def v1_unpacker_fields)
qed

text \<open>
  C1, on an image whose file has exactly the size of one page. The header gives the
  size 512 and the image holds the page of content, 512 bytes. The run pulls that one
  page and ends normally, and the file it leaves has no content at all: the last page
  contributes \<open>file_size mod page_size = 0\<close> bytes instead of a full page.
\<close>

theorem unpack_full_page_file_writes_nothing:
  "file_size file_f_record = 512
   \<and> page_size v1_unpacker = 512
   \<and> fst (fin_read image_full_page_file 1056 512) = replicate 512 0x41
   \<and> unpack image_full_page_file empty_tree
       = Some (Inr (v1_unpacker \<lparr> objdict := [257 \<mapsto> file_f_record] \<rparr>, tree_with_empty_f))
   \<and> nodes tree_with_empty_f [[102]] = Some (Reg [])"
proof -
  have "unpack_loop image_full_page_file (v1_unpacker \<lparr> objdict := [257 \<mapsto> file_f_record] \<rparr>)
          1584 (257 + 1) tree_with_empty_f
        = Some (Inr (v1_unpacker \<lparr> objdict := [257 \<mapsto> file_f_record] \<rparr>, tree_with_empty_f))"
    by (subst unpack_loop.simps) (simp add: full_page_second_round)
  then have "unpack_loop image_full_page_file v1_unpacker 528 257 empty_tree
        = Some (Inr (v1_unpacker \<lparr> objdict := [257 \<mapsto> file_f_record] \<rparr>, tree_with_empty_f))"
    by (subst unpack_loop.simps) (simp add: full_page_first_round)
  then have "unpack image_full_page_file empty_tree
        = Some (Inr (v1_unpacker \<lparr> objdict := [257 \<mapsto> file_f_record] \<rparr>, tree_with_empty_f))"
    by (simp add: unpack_def full_page_geometry v1_unpacker_fields)
  with full_page_content_read(1) show ?thesis
    by (simp add: file_f_record_def v1_unpacker_fields tree_with_empty_f_def)
qed

subsection \<open>The probe always finds a page size\<close>

text \<open>
  The header structure is as long as the smallest candidate, so the candidate 512 has no
  byte to test and always passes: the loop never ends without a page size, and the test
  for \<open>- 1\<close> that guards \<open>WrongPageSize\<close> never succeeds.
\<close>

lemma test_page_size_512: "test_page_size content 512"
  by (simp add: test_page_size_def fin_read_def yaffs_obj_hdr_size_def)

lemma select_page_size_found: "select_page_size content allowed_page_size \<noteq> - 1"
  using test_page_size_512 [of content] by (simp add: allowed_page_size_def)

end
